theory Spec2Isabelle
  imports Complex_Main
begin

section \<open>Embedding of \<open>src/lib/audioSynth.ts\<close> and of the tempo clamp of \<open>src/lib/gemini.ts\<close>\<close>

text \<open>
  Conventions of the embedding.
  \<^item> A JavaScript \<open>number\<close> is an IEEE double: a finite value, an infinity or \<open>NaN\<close>
    (type \<open>jsnum\<close>; the sign of a zero is not kept). Where a rounding error can change what
    the program does, namely the number of bars, the model rounds every operation as the
    source does (\<open>fl64\<close>, \<open>js_div\<close>, \<open>js_mul\<close>). Times, frequencies, durations and gains of
    the scheduled calls are exact reals.
  \<^item> \<open>Math.random()\<close> is a stream \<open>rnd :: nat \<Rightarrow> real\<close> read at a position that every
    call advances by one; its contract is \<open>random_source rnd\<close> (every value in \<open>[0, 1)\<close>).
  \<^item> A string is a \<open>string\<close> of 8-bit characters; \<open>toLowerCase\<close> maps \<open>A\<close>..\<open>Z\<close> to
    \<open>a\<close>..\<open>z\<close> and leaves every other character alone.
  \<^item> The calls that \<open>playJingle\<close> makes into the audio graph are a list of \<open>call\<close> values
    in the order the source makes them.
\<close>

subsection \<open>Strings\<close>

definition lower_char :: "char \<Rightarrow> char" where
  "lower_char c =
     (case map_of (zip ''ABCDEFGHIJKLMNOPQRSTUVWXYZ'' ''abcdefghijklmnopqrstuvwxyz'') c of
        Some d \<Rightarrow> d
      | None \<Rightarrow> c)"

definition toLowerCase :: "string \<Rightarrow> string" where
  "toLowerCase s = map lower_char s"

fun startsWith :: "string \<Rightarrow> string \<Rightarrow> bool" where
  "startsWith s [] = True"
| "startsWith [] (c # cs) = False"
| "startsWith (d # ds) (c # cs) = (d = c \<and> startsWith ds cs)"

text \<open>\<open>s.includes(sub)\<close>: \<open>sub\<close> occurs in \<open>s\<close> as a contiguous substring.\<close>

fun includes_str :: "string \<Rightarrow> string \<Rightarrow> bool" where
  "includes_str [] sub = (sub = [])"
| "includes_str (d # ds) sub = (startsWith (d # ds) sub \<or> includes_str ds sub)"

subsection \<open>Note frequencies (\<open>NOTE_FREQS\<close>)\<close>

definition NOTE_C4 :: real where "NOTE_C4 = 261.63"
definition NOTE_D4 :: real where "NOTE_D4 = 293.66"
definition NOTE_E4 :: real where "NOTE_E4 = 329.63"
definition NOTE_F4 :: real where "NOTE_F4 = 349.23"
definition NOTE_G4 :: real where "NOTE_G4 = 392.0"
definition NOTE_A4 :: real where "NOTE_A4 = 440.0"
definition NOTE_B4 :: real where "NOTE_B4 = 493.88"
definition NOTE_C5 :: real where "NOTE_C5 = 523.25"

subsection \<open>Style profiles (\<open>getStyleProfile\<close>)\<close>

datatype WaveType = sine | square | sawtooth | triangle

record StyleProfile =
  scale :: "real list"
  leadWave :: WaveType
  bassWave :: WaveType
  reverbAmount :: real

definition combined_labels :: "string \<Rightarrow> string \<Rightarrow> string" where
  "combined_labels style tone = toLowerCase (style @ '' '' @ tone)"

definition getStyleProfile :: "string \<Rightarrow> string \<Rightarrow> StyleProfile" where
  "getStyleProfile style tone =
     (let combined = combined_labels style tone in
      if includes_str combined ''dark'' \<or> includes_str combined ''crime''
           \<or> includes_str combined ''serious''
      then \<lparr>scale = [NOTE_C4, NOTE_D4, NOTE_F4, NOTE_G4, NOTE_A4],
            leadWave = sawtooth, bassWave = square, reverbAmount = 0.6\<rparr>
      else if includes_str combined ''jazz'' \<or> includes_str combined ''lo-fi''
           \<or> includes_str combined ''chill''
      then \<lparr>scale = [NOTE_C4, NOTE_E4, NOTE_G4, NOTE_A4, NOTE_B4],
            leadWave = sine, bassWave = sine, reverbAmount = 0.7\<rparr>
      else if includes_str combined ''energetic'' \<or> includes_str combined ''upbeat''
           \<or> includes_str combined ''pop''
      then \<lparr>scale = [NOTE_C4, NOTE_D4, NOTE_E4, NOTE_G4, NOTE_A4, NOTE_C5],
            leadWave = square, bassWave = sawtooth, reverbAmount = 0.3\<rparr>
      else if includes_str combined ''techno'' \<or> includes_str combined ''electronic''
           \<or> includes_str combined ''cyber''
      then \<lparr>scale = [NOTE_C4, NOTE_D4, NOTE_F4, NOTE_G4, NOTE_A4],
            leadWave = sawtooth, bassWave = sawtooth, reverbAmount = 0.4\<rparr>
      else \<lparr>scale = [NOTE_C4, NOTE_E4, NOTE_G4, NOTE_A4, NOTE_C5],
            leadWave = sine, bassWave = triangle, reverbAmount = 0.45\<rparr>)"

text \<open>
  The field \<open>leadWave\<close> is the source's \<open>wave\<close> of the profile (the name \<open>wave\<close> is kept
  for the field of \<open>NoteEvent\<close>).

  The resolver as section 4.1 of the specification words it: an ordered list of keyword
  groups, the first group with a keyword that occurs in the lower-cased concatenation of
  the labels wins, and the neutral profile is the default. It is compared with
  \<open>getStyleProfile\<close> below.
\<close>

definition default_profile :: StyleProfile where
  "default_profile =
     \<lparr>scale = [NOTE_C4, NOTE_E4, NOTE_G4, NOTE_A4, NOTE_C5],
      leadWave = sine, bassWave = triangle, reverbAmount = 0.45\<rparr>"

definition dark_profile :: StyleProfile where
  "dark_profile =
     \<lparr>scale = [NOTE_C4, NOTE_D4, NOTE_F4, NOTE_G4, NOTE_A4],
      leadWave = sawtooth, bassWave = square, reverbAmount = 0.6\<rparr>"

definition keyword_groups :: "(string list \<times> StyleProfile) list" where
  "keyword_groups =
     [([''dark'', ''crime'', ''serious''], dark_profile),
      ([''jazz'', ''lo-fi'', ''chill''],
         \<lparr>scale = [NOTE_C4, NOTE_E4, NOTE_G4, NOTE_A4, NOTE_B4],
          leadWave = sine, bassWave = sine, reverbAmount = 0.7\<rparr>),
      ([''energetic'', ''upbeat'', ''pop''],
         \<lparr>scale = [NOTE_C4, NOTE_D4, NOTE_E4, NOTE_G4, NOTE_A4, NOTE_C5],
          leadWave = square, bassWave = sawtooth, reverbAmount = 0.3\<rparr>),
      ([''techno'', ''electronic'', ''cyber''],
         \<lparr>scale = [NOTE_C4, NOTE_D4, NOTE_F4, NOTE_G4, NOTE_A4],
          leadWave = sawtooth, bassWave = sawtooth, reverbAmount = 0.4\<rparr>)]"

definition all_keywords :: "string list" where
  "all_keywords = concat (map fst keyword_groups)"

fun first_match :: "string \<Rightarrow> (string list \<times> StyleProfile) list \<Rightarrow> StyleProfile" where
  "first_match combined [] = default_profile"
| "first_match combined ((kws, p) # groups) =
     (if list_ex (includes_str combined) kws then p else first_match combined groups)"

definition resolve_spec :: "string \<Rightarrow> string \<Rightarrow> StyleProfile" where
  "resolve_spec styleLabel toneLabel =
     first_match (toLowerCase (styleLabel @ '' '' @ toneLabel)) keyword_groups"

subsection \<open>Note events and the calls into the audio graph\<close>

record NoteEvent =
  time :: real
  freq :: real
  duration :: real
  wave :: WaveType
  gain :: real
  detune :: "real option"

text \<open>
  One value per call of \<open>scheduleNote\<close>, \<open>scheduleKick\<close>, \<open>scheduleSnare\<close> and
  \<open>scheduleHihat\<close> (its second argument is \<open>open\<close>).
\<close>

datatype call =
    ScheduleNote NoteEvent
  | ScheduleKick real
  | ScheduleSnare real
  | ScheduleHihat real bool








fun notes_of :: "call list \<Rightarrow> NoteEvent list" where
  "notes_of [] = []"
| "notes_of (ScheduleNote e # cs) = e # notes_of cs"
| "notes_of (c # cs) = notes_of cs"

subsection \<open>The random source\<close>

definition random_source :: "(nat \<Rightarrow> real) \<Rightarrow> bool" where
  "random_source rnd = (\<forall>i. 0 \<le> rnd i \<and> rnd i < 1)"

definition const_source :: "real \<Rightarrow> nat \<Rightarrow> real" where
  "const_source x i = x"

text \<open>
  A loop whose body makes calls and reads the random source: the body gets the loop
  variable and the position of the source, and returns its calls and the new position.
\<close>

fun for_each :: "('i \<Rightarrow> nat \<Rightarrow> call list \<times> nat) \<Rightarrow> 'i list \<Rightarrow> nat \<Rightarrow> call list \<times> nat" where
  "for_each body [] k = ([], k)"
| "for_each body (i # is) k =
     (case body i k of (cs, k') \<Rightarrow>
        (case for_each body is k' of (ds, k'') \<Rightarrow> (cs @ ds, k'')))"

subsection \<open>JavaScript numbers\<close>

datatype jsnum = Num real | PosInf | NegInf | NaN

text \<open>
  Rounding to the nearest double, ties to even. A real \<open>x\<close> other than zero lies in the
  binade of exponent \<open>floor (log2 |x|)\<close>, or in the subnormal range, whose grid is that of
  the exponent \<open>-1022\<close>; the grid of a binade has step \<open>2^(e - 52)\<close>. The result overflows
  to an infinity when the rounded value reaches \<open>2^1024\<close>.
\<close>

definition round_even :: "real \<Rightarrow> int" where
  "round_even y =
     (let f = \<lfloor>y\<rfloor>; d = y - of_int f
      in if d < 1 / 2 then f else if 1 / 2 < d then f + 1 else if even f then f else f + 1)"

definition exponent64 :: "real \<Rightarrow> int" where
  "exponent64 x = max \<lfloor>log 2 \<bar>x\<bar>\<rfloor> (- 1022)"

definition round_grid :: "real \<Rightarrow> real" where
  "round_grid x =
     of_int (round_even (x / 2 powi (exponent64 x - 52))) * 2 powi (exponent64 x - 52)"

definition overflow64 :: real where
  "overflow64 = 2 ^ 1024"

definition fl64 :: "real \<Rightarrow> jsnum" where
  "fl64 x =
     (if x = 0 then Num 0
      else if overflow64 \<le> \<bar>round_grid x\<bar> then (if 0 < x then PosInf else NegInf)
      else Num (round_grid x))"

text \<open>
  Division and multiplication of JavaScript numbers: the exact result, rounded. A zero
  divisor counts as \<open>+0\<close>.
\<close>

fun js_div :: "jsnum \<Rightarrow> jsnum \<Rightarrow> jsnum" where
  "js_div NaN y = NaN"
| "js_div x NaN = NaN"
| "js_div (Num a) (Num b) =
     (if b = 0 then (if a = 0 then NaN else if 0 < a then PosInf else NegInf)
      else fl64 (a / b))"
| "js_div (Num a) y = Num 0"
| "js_div PosInf (Num b) = (if 0 \<le> b then PosInf else NegInf)"
| "js_div NegInf (Num b) = (if 0 \<le> b then NegInf else PosInf)"
| "js_div x y = NaN"

fun js_mul :: "jsnum \<Rightarrow> jsnum \<Rightarrow> jsnum" where
  "js_mul NaN y = NaN"
| "js_mul x NaN = NaN"
| "js_mul (Num a) (Num b) = fl64 (a * b)"
| "js_mul (Num a) PosInf = (if a = 0 then NaN else if 0 < a then PosInf else NegInf)"
| "js_mul (Num a) NegInf = (if a = 0 then NaN else if 0 < a then NegInf else PosInf)"
| "js_mul PosInf (Num b) = (if b = 0 then NaN else if 0 < b then PosInf else NegInf)"
| "js_mul NegInf (Num b) = (if b = 0 then NaN else if 0 < b then NegInf else PosInf)"
| "js_mul PosInf PosInf = PosInf"
| "js_mul NegInf NegInf = PosInf"
| "js_mul x y = NegInf"

fun Math_floor :: "jsnum \<Rightarrow> jsnum" where
  "Math_floor (Num r) = Num (of_int \<lfloor>r\<rfloor>)"
| "Math_floor x = x"

subsection \<open>The bar grid\<close>

text \<open>
  \<open>beatDuration = 60 / bpm\<close> and \<open>bars = Math.floor(durationSeconds / (beatDuration * 4))\<close>,
  as the source computes them (\<open>beatDuration_js\<close>, \<open>bars_js\<close>). For \<open>bpm = 0\<close>, and for a
  tempo so small that the division overflows, \<open>beatDuration\<close> is \<open>Infinity\<close> and \<open>bars\<close> is
  zero.
\<close>

definition beatDuration_js :: "real \<Rightarrow> jsnum" where
  "beatDuration_js bpm = js_div (Num 60) (Num bpm)"

definition bars_js :: "real \<Rightarrow> real \<Rightarrow> jsnum" where
  "bars_js bpm durationSeconds =
     Math_floor (js_div (Num durationSeconds) (js_mul (beatDuration_js bpm) (Num 4)))"

text \<open>
  A loop \<open>for (bar = 0; bar < bars; bar++)\<close> runs \<open>loop_count bars\<close> times. With
  \<open>bars = Infinity\<close>, and with \<open>bars\<close> above \<open>2^53\<close>, where \<open>bar++\<close> no longer changes
  \<open>bar\<close>, it never ends (\<open>None\<close>); with \<open>NaN\<close> or \<open>-Infinity\<close> it does not run.
  \<open>bar_count\<close> is the finite value of \<open>bars\<close> as an integer and \<open>beatDuration\<close> the
  finite value of \<open>beatDuration\<close>, which the loops read; the loops run over
  \<open>bar_range bars\<close>, which is empty when \<open>bars \<le> 0\<close>. When \<open>beatDuration\<close> is not finite no
  loop runs and its value is not read. Statements about the arrangement of given
  \<open>bpm\<close> and \<open>durationSeconds\<close> are about inputs whose loops end.
\<close>

definition beatDuration :: "real \<Rightarrow> real" where
  "beatDuration bpm = (case beatDuration_js bpm of Num r \<Rightarrow> r | _ \<Rightarrow> 0)"

definition bar_count :: "real \<Rightarrow> real \<Rightarrow> int" where
  "bar_count bpm durationSeconds =
     (case bars_js bpm durationSeconds of Num r \<Rightarrow> \<lfloor>r\<rfloor> | _ \<Rightarrow> 0)"

fun loop_count :: "jsnum \<Rightarrow> nat option" where
  "loop_count (Num r) = (if 2 ^ 53 < r then None else Some (nat \<lceil>r\<rceil>))"
| "loop_count PosInf = None"
| "loop_count x = Some 0"

definition bar_range :: "int \<Rightarrow> nat list" where
  "bar_range bars = [0 ..< nat bars]"

definition barStart :: "real \<Rightarrow> nat \<Rightarrow> real" where
  "barStart bd bar = real bar * bd * 4"

subsection \<open>Melody\<close>

text \<open>
  The body of the inner melody loop. The source reads the random source up to four times,
  in this order: the 70 percent test, the scale index, the doubling test (inside the
  object literal, before the gain), the gain. The index read \<open>scale[noteIdx]\<close> is in range
  whenever the source holds its contract and the scale is not empty (lemma
  \<open>noteIdx_in_range\<close>).
\<close>

definition noteIdx :: "StyleProfile \<Rightarrow> real \<Rightarrow> nat" where
  "noteIdx profile r = nat \<lfloor>r * real (length (scale profile))\<rfloor>"

definition melody_beat ::
  "StyleProfile \<Rightarrow> real \<Rightarrow> (nat \<Rightarrow> real) \<Rightarrow> nat \<Rightarrow> nat \<Rightarrow> nat \<Rightarrow> call list \<times> nat" where
  "melody_beat profile bd rnd bar beat k =
     (if rnd k < 0.7
      then ([ScheduleNote
              \<lparr>time = barStart bd bar + real beat * bd,
               freq = scale profile ! noteIdx profile (rnd (k + 1)),
               duration = bd * (if rnd (k + 2) < 0.3 then 2 else 1) * 0.9,
               wave = leadWave profile,
               gain = 0.18 + rnd (k + 3) * 0.06,
               detune = None\<rparr>], k + 4)
      else ([], k + 1))"

definition melody_bar ::
  "StyleProfile \<Rightarrow> real \<Rightarrow> (nat \<Rightarrow> real) \<Rightarrow> nat \<Rightarrow> nat \<Rightarrow> call list \<times> nat" where
  "melody_bar profile bd rnd bar k = for_each (melody_beat profile bd rnd bar) [0, 1, 2, 3] k"

definition melody ::
  "StyleProfile \<Rightarrow> real \<Rightarrow> int \<Rightarrow> (nat \<Rightarrow> real) \<Rightarrow> nat \<Rightarrow> call list \<times> nat" where
  "melody profile bd bars rnd k = for_each (melody_bar profile bd rnd) (bar_range bars) k"


subsection \<open>Bass\<close>

definition bassScale :: "StyleProfile \<Rightarrow> real list" where
  "bassScale profile = map (\<lambda>f. f / 2) (scale profile)"

definition pattern :: "nat list" where
  "pattern = [0, 2, 0, 3]"

definition bass_beat :: "StyleProfile \<Rightarrow> real \<Rightarrow> nat \<Rightarrow> nat \<Rightarrow> call" where
  "bass_beat profile bd bar beat =
     ScheduleNote
       \<lparr>time = barStart bd bar + real beat * bd,
        freq = bassScale profile ! (pattern ! beat mod length (bassScale profile)),
        duration = bd * 0.85,
        wave = bassWave profile,
        gain = 0.22,
        detune = None\<rparr>"

definition bass_bar :: "StyleProfile \<Rightarrow> real \<Rightarrow> nat \<Rightarrow> call list" where
  "bass_bar profile bd bar = map (bass_beat profile bd bar) [0, 1, 2, 3]"

definition bass_line :: "StyleProfile \<Rightarrow> real \<Rightarrow> int \<Rightarrow> call list" where
  "bass_line profile bd bars = concat (map (bass_bar profile bd) (bar_range bars))"

subsection \<open>Chord pad\<close>

definition chordRoot :: "StyleProfile \<Rightarrow> real" where
  "chordRoot profile = scale profile ! 0"

definition pad_note :: "real \<Rightarrow> (nat \<Rightarrow> real) \<Rightarrow> nat \<Rightarrow> real \<Rightarrow> nat \<Rightarrow> call list \<times> nat" where
  "pad_note bd rnd bar f k =
     ([ScheduleNote
         \<lparr>time = barStart bd bar,
          freq = f,
          duration = bd * 3.8,
          wave = sine,
          gain = 0.06,
          detune = Some (rnd k * 6 - 3)\<rparr>], k + 1)"

definition pad_bar ::
  "StyleProfile \<Rightarrow> real \<Rightarrow> (nat \<Rightarrow> real) \<Rightarrow> nat \<Rightarrow> nat \<Rightarrow> call list \<times> nat" where
  "pad_bar profile bd rnd bar k =
     for_each (pad_note bd rnd bar)
       [chordRoot profile, chordRoot profile * 1.25, chordRoot profile * 1.5] k"

definition pad ::
  "StyleProfile \<Rightarrow> real \<Rightarrow> int \<Rightarrow> (nat \<Rightarrow> real) \<Rightarrow> nat \<Rightarrow> call list \<times> nat" where
  "pad profile bd bars rnd k = for_each (pad_bar profile bd rnd) (bar_range bars) k"

subsection \<open>Drums\<close>

definition drum_bar :: "real \<Rightarrow> nat \<Rightarrow> call list" where
  "drum_bar bd bar =
     map (\<lambda>b. ScheduleKick (barStart bd bar + real b * bd)) [0, 2]
     @ map (\<lambda>b. ScheduleSnare (barStart bd bar + real b * bd)) [1, 3]
     @ map (\<lambda>i. ScheduleHihat (barStart bd bar + real i * bd * 0.5) (i = 7)) [0 ..< 8]"

definition drums :: "real \<Rightarrow> int \<Rightarrow> call list" where
  "drums bd bars = concat (map (drum_bar bd) (bar_range bars))"

subsection \<open>The arrangement made by \<open>playJingle\<close>\<close>

text \<open>
  The four loops of \<open>playJingle\<close> in their order. \<open>k\<close> is the position of the random
  source when the melody loop starts (\<open>createReverb\<close> has read it before, for the impulse
  response); the noise buffers of the snare and the hi-hat read it after the pad and are
  no part of a call.
\<close>

definition arrange :: "real \<Rightarrow> StyleProfile \<Rightarrow> real \<Rightarrow> (nat \<Rightarrow> real) \<Rightarrow> nat \<Rightarrow> call list" where
  "arrange bpm profile durationSeconds rnd k =
     (let bd = beatDuration bpm;
          bars = bar_count bpm durationSeconds
      in case melody profile bd bars rnd k of (mel, k1) \<Rightarrow>
         case pad profile bd bars rnd k1 of (pd, k2) \<Rightarrow>
           mel @ bass_line profile bd bars @ pd @ drums bd bars)"

subsection \<open>The playback controller: \<open>activeCtx\<close>, \<open>stopAudio\<close>, \<open>playJingle\<close>\<close>

text \<open>
  The state that the controller works on. An audio context is a number (its identity);
  \<open>open_ctxs\<close> are the contexts that were created and not closed, \<open>activeCtx\<close> is the
  module variable of the source, \<open>timers\<close> are the pending \<open>setTimeout\<close> callbacks of
  \<open>playJingle\<close>, each with the context it captured and its delay in milliseconds, and
  \<open>next_ctx\<close> is the identity that the next \<open>new AudioContext()\<close> gets.
\<close>

record world =
  activeCtx :: "nat option"
  open_ctxs :: "nat set"
  timers :: "(nat \<times> real) list"
  next_ctx :: nat

definition init_world :: world where
  "init_world = \<lparr>activeCtx = None, open_ctxs = {}, timers = [], next_ctx = 0\<rparr>"

definition close_ctx :: "nat \<Rightarrow> world \<Rightarrow> world" where
  "close_ctx c w = w\<lparr>open_ctxs := open_ctxs w - {c}\<rparr>"

definition stopAudio :: "world \<Rightarrow> world" where
  "stopAudio w =
     (case activeCtx w of
        Some c \<Rightarrow> (close_ctx c w)\<lparr>activeCtx := None\<rparr>
      | None \<Rightarrow> w)"

record params =
  bpm :: real
  musicalStyle :: string
  tone :: string
  durationSeconds :: "real option"

text \<open>
  What one call of \<open>playJingle\<close> sets up: its context, the gains of the dry and the wet
  path, the calls of the arrangement, the fade (both times are offsets from
  \<open>ctx.currentTime\<close>) and the delay of the timer that resolves the promise.
\<close>

record session =
  session_ctx :: nat
  dryGain :: real
  wetGain :: real
  calls :: "call list"
  fade_from :: real
  fade_to :: real
  resolve_after_ms :: real

definition total_duration :: "params \<Rightarrow> real" where
  "total_duration ps = (case durationSeconds ps of None \<Rightarrow> 12 | Some d \<Rightarrow> d)"

definition playJingle :: "params \<Rightarrow> (nat \<Rightarrow> real) \<Rightarrow> nat \<Rightarrow> world \<Rightarrow> world \<times> session" where
  "playJingle ps rnd k w =
     (let w1 = stopAudio w;
          ctx = next_ctx w1;
          w2 = w1\<lparr>activeCtx := Some ctx, open_ctxs := insert ctx (open_ctxs w1),
                  next_ctx := Suc ctx\<rparr>;
          d = total_duration ps;
          profile = getStyleProfile (musicalStyle ps) (tone ps);
          cs = arrange (bpm ps) profile d rnd k;
          w3 = w2\<lparr>timers := timers w2 @ [(ctx, d * 1000 + 200)]\<rparr>
      in (w3, \<lparr>session_ctx = ctx,
                dryGain = 1 - reverbAmount profile,
                wetGain = reverbAmount profile,
                calls = cs,
                fade_from = d - 1.5,
                fade_to = d,
                resolve_after_ms = d * 1000 + 200\<rparr>))"

text \<open>
  \<open>playJingle\<close> above is the run in which the audio API accepts every call. The API
  refuses a negative time with a \<open>RangeError\<close> (\<open>setValueAtTime\<close>,
  \<open>linearRampToValueAtTime\<close>, \<open>exponentialRampToValueAtTime\<close>, \<open>start\<close>, \<open>stop\<close>), and
  \<open>playJingle\<close> catches nothing. \<open>api_times\<close> lists the times that a call passes, in the
  order of the source, with \<open>ctx.currentTime = 0\<close> for the context just created;
  \<open>fade_times\<close> are those of the fade. When a time is refused the exception leaves
  \<open>playJingle\<close> after the new context has become the active one and before the timer
  is set (\<open>session_started\<close>).
\<close>

datatype error = RangeError

fun api_times :: "call \<Rightarrow> real list" where
  "api_times (ScheduleNote e) =
     [time e, time e, time e + duration e, time e, time e + 0.02,
      time e + duration e - 0.05, time e + duration e, time e, time e + duration e]"
| "api_times (ScheduleKick t) = [t, t + 0.15, t, t + 0.3, t, t + 0.35]"
| "api_times (ScheduleSnare t) = [t, t + 0.12, t, t + 0.15]"
| "api_times (ScheduleHihat t opn) =
     [t, t + (if opn then 0.3 else 0.05), t, t + (if opn then 0.3 else 0.05) + 0.01]"

definition fade_times :: "real \<Rightarrow> real list" where
  "fade_times d = [d - 1.5, d, d - 1.5, d]"

definition refused :: "real list \<Rightarrow> bool" where
  "refused ts = list_ex (\<lambda>t. t < 0) ts"

definition session_started :: "world \<Rightarrow> world" where
  "session_started w =
     (let w1 = stopAudio w; ctx = next_ctx w1
      in w1\<lparr>activeCtx := Some ctx, open_ctxs := insert ctx (open_ctxs w1),
              next_ctx := Suc ctx\<rparr>)"

definition playJingle_result ::
  "params \<Rightarrow> (nat \<Rightarrow> real) \<Rightarrow> nat \<Rightarrow> world \<Rightarrow> (error \<times> world) + (world \<times> session)" where
  "playJingle_result ps rnd k w =
     (if list_ex (\<lambda>c. refused (api_times c)) (calls (snd (playJingle ps rnd k w)))
         \<or> refused (fade_times (total_duration ps))
      then Inl (RangeError, session_started w)
      else Inr (playJingle ps rnd k w))"

text \<open>
  The callback of the timer: \<open>if (activeCtx === ctx) { ctx.close(); activeCtx = null }\<close>.
\<close>

definition on_timeout :: "nat \<Rightarrow> world \<Rightarrow> world" where
  "on_timeout ctx w =
     (if activeCtx w = Some ctx then (close_ctx ctx w)\<lparr>activeCtx := None\<rparr> else w)"

text \<open>
  The controller runs on one thread: its history is a sequence of events, each run to its
  end before the next. \<open>Timeout c\<close> is the timer that captured context \<open>c\<close> firing; it can
  fire only while it is pending, and timers may fire in any order.
\<close>

datatype event =
    Play params "nat \<Rightarrow> real" nat
  | Stop
  | Timeout nat

fun step :: "world \<Rightarrow> event \<Rightarrow> world" where
  "step w (Play ps rnd k) = fst (playJingle ps rnd k w)"
| "step w Stop = stopAudio w"
| "step w (Timeout c) =
     (if c \<in> fst ` set (timers w)
      then on_timeout c (w\<lparr>timers := filter (\<lambda>t. fst t \<noteq> c) (timers w)\<rparr>)
      else w)"

definition run :: "event list \<Rightarrow> world" where
  "run es = foldl step init_world es"

text \<open>
  The invariant of the controller: the open contexts are exactly the active one (if any),
  every pending timer belongs to a context of its own, and the identities in use are
  below the next one.
\<close>

definition controller_inv :: "world \<Rightarrow> bool" where
  "controller_inv w =
     (open_ctxs w = set_option (activeCtx w)
      \<and> distinct (map fst (timers w))
      \<and> list_all (\<lambda>t. fst t < next_ctx w) (timers w)
      \<and> (case activeCtx w of None \<Rightarrow> True | Some c \<Rightarrow> c < next_ctx w))"

text \<open>A request used in examples.\<close>

definition example_params :: params where
  "example_params =
     \<lparr>bpm = 120, musicalStyle = ''Dark Industrial Techno'', tone = ''Serious'',
      durationSeconds = None\<rparr>"

subsection \<open>\<open>generateWaveformData\<close>\<close>

text \<open>
  \<open>bars\<close> is the number of samples (default 32); the loop reads the random source once
  for every sample.
\<close>

definition waveform_value :: "real \<Rightarrow> nat \<Rightarrow> (nat \<Rightarrow> real) \<Rightarrow> nat \<Rightarrow> nat \<Rightarrow> real" where
  "waveform_value tempo bars rnd k i =
     (let beatPhase = (real i / real bars) * pi * 2 * (tempo / 60);
          val = \<bar>sin (beatPhase * 0.7) * 0.5 + sin (beatPhase * 1.3) * 0.3 + rnd (k + i) * 0.2\<bar>
      in min 1 (max 0.08 val))"

definition generateWaveformData :: "real \<Rightarrow> nat option \<Rightarrow> (nat \<Rightarrow> real) \<Rightarrow> nat \<Rightarrow> real list" where
  "generateWaveformData tempo bars_opt rnd k =
     (let bars = (case bars_opt of None \<Rightarrow> 32 | Some n \<Rightarrow> n)
      in map (waveform_value tempo bars rnd k) [0 ..< bars])"

subsection \<open>The tempo clamp of \<open>generateJingle\<close>\<close>

text \<open>
  \<open>Math.max(60, Math.min(180, Math.round(Number(parsed.bpm) || 120)))\<close>, where
  \<open>parsed\<close> is whatever \<open>JSON.parse\<close> returned. \<open>Number\<close> turns a string into a number by the language's own grammar, which
  is a parameter \<open>parse\<close> here; an array or an object is converted through its string.
\<close>

datatype jsval =
    JUndefined
  | JNull
  | JBool bool
  | JNumber jsnum
  | JString string
  | JCompound string

fun Number_js :: "(string \<Rightarrow> jsnum) \<Rightarrow> jsval \<Rightarrow> jsnum" where
  "Number_js parse JUndefined = NaN"
| "Number_js parse JNull = Num 0"
| "Number_js parse (JBool b) = Num (if b then 1 else 0)"
| "Number_js parse (JNumber x) = x"
| "Number_js parse (JString s) = parse s"
| "Number_js parse (JCompound s) = parse s"

fun or_default :: "jsnum \<Rightarrow> jsnum \<Rightarrow> jsnum" where
  "or_default NaN d = d"
| "or_default (Num r) d = (if r = 0 then d else Num r)"
| "or_default x d = x"

fun Math_round :: "jsnum \<Rightarrow> jsnum" where
  "Math_round (Num r) = Num (of_int \<lfloor>r + 1 / 2\<rfloor>)"
| "Math_round x = x"

fun Math_min :: "jsnum \<Rightarrow> jsnum \<Rightarrow> jsnum" where
  "Math_min NaN y = NaN"
| "Math_min x NaN = NaN"
| "Math_min NegInf y = NegInf"
| "Math_min x NegInf = NegInf"
| "Math_min PosInf y = y"
| "Math_min x PosInf = x"
| "Math_min (Num a) (Num b) = Num (min a b)"

fun Math_max :: "jsnum \<Rightarrow> jsnum \<Rightarrow> jsnum" where
  "Math_max NaN y = NaN"
| "Math_max x NaN = NaN"
| "Math_max PosInf y = PosInf"
| "Math_max x PosInf = PosInf"
| "Math_max NegInf y = y"
| "Math_max x NegInf = x"
| "Math_max (Num a) (Num b) = Num (max a b)"

definition clamp_bpm :: "(string \<Rightarrow> jsnum) \<Rightarrow> jsval \<Rightarrow> jsnum" where
  "clamp_bpm parse parsed_bpm =
     Math_max (Num 60) (Math_min (Num 180) (Math_round (or_default (Number_js parse parsed_bpm) (Num 120))))"

text \<open>An example of \<open>parse\<close>: no string reads as a number.\<close>

definition parse_none :: "string \<Rightarrow> jsnum" where
  "parse_none s = NaN"

section \<open>Properties\<close>

subsection \<open>Double arithmetic\<close>

lemma round_even_int [simp]: "round_even (of_int k) = k"
  by (simp add: round_even_def)

lemma round_even_bounds:
  assumes "of_int a \<le> y" and "y \<le> of_int b"
  shows "a \<le> round_even y \<and> round_even y \<le> b"
proof -
  have lo: "a \<le> \<lfloor>y\<rfloor>" using assms(1) by (simp add: le_floor_iff)
  have hi: "\<lfloor>y\<rfloor> \<le> b" using assms(2) by (simp add: floor_le_iff)
  have "\<lfloor>y\<rfloor> + 1 \<le> b" if "y \<noteq> of_int \<lfloor>y\<rfloor>"
  proof -
    have "of_int \<lfloor>y\<rfloor> < y" using that of_int_floor_le [of y] by linarith
    then have "of_int \<lfloor>y\<rfloor> < (of_int b :: real)" using assms(2) by linarith
    then show ?thesis by simp
  qed
  then show ?thesis using lo hi unfolding round_even_def Let_def
    by (auto simp: not_less)
qed

lemma exponent64_eq:
  assumes "2 powi e \<le> \<bar>x\<bar>" and "\<bar>x\<bar> < 2 powi (e + 1)" and "- 1022 \<le> e"
  shows "exponent64 x = e"
proof -
  have "(0::real) < 2 powi e" by simp
  then have pos: "0 < \<bar>x\<bar>" using assms(1) by linarith
  have "(2::real) powr of_int e = 2 powi e" "(2::real) powr (of_int e + 1) = 2 powi (e + 1)"
    using powr_real_of_int' [of 2 e] powr_real_of_int' [of 2 "e + 1"] by simp_all
  then have "\<lfloor>log 2 \<bar>x\<bar>\<rfloor> = e"
    using assms(1,2) pos by (simp add: floor_log_eq_powr_iff)
  then show ?thesis using assms(3) by (simp add: exponent64_def)
qed

lemma binade_exists:
  assumes "0 < x"
  shows "2 powi \<lfloor>log 2 x\<rfloor> \<le> x \<and> x < 2 powi (\<lfloor>log 2 x\<rfloor> + 1)"
proof -
  let ?e = "\<lfloor>log 2 x\<rfloor>"
  have p: "(2::real) powr of_int ?e = 2 powi ?e" "(2::real) powr (of_int ?e + 1) = 2 powi (?e + 1)"
    using powr_real_of_int' [of 2 ?e] powr_real_of_int' [of 2 "?e + 1"] by simp_all
  have "2 powr of_int ?e \<le> x \<and> x < 2 powr (of_int ?e + 1)"
    using floor_log_eq_powr_iff [of x 2 ?e] assms by simp
  then show ?thesis using p by simp
qed

lemma binade_normal:
  assumes "2 powi (- 1022) \<le> x"
  shows "- 1022 \<le> \<lfloor>log 2 x\<rfloor>"
proof (rule ccontr)
  assume "\<not> - 1022 \<le> \<lfloor>log 2 x\<rfloor>"
  then have "\<lfloor>log 2 x\<rfloor> + 1 \<le> - 1022" by linarith
  then have "(2::real) powi (\<lfloor>log 2 x\<rfloor> + 1) \<le> 2 powi (- 1022)"
    by (intro power_int_increasing) simp_all
  moreover have "0 < x" using assms zero_less_power_int [of "2::real" "- 1022"] by linarith
  ultimately show False using binade_exists [of x] assms by linarith
qed

lemma round_grid_normal:
  assumes "2 powi e \<le> \<bar>x\<bar>" and "\<bar>x\<bar> < 2 powi (e + 1)" and "- 1022 \<le> e"
  shows "round_grid x = of_int (round_even (x / 2 powi (e - 52))) * 2 powi (e - 52)"
  by (simp add: round_grid_def exponent64_eq [OF assms])

lemma powi_split: "(2::real) powi (e + 1) = 2 powi (e - 52) * 2 ^ 53"
  "(2::real) powi e = 2 powi (e - 52) * 2 ^ 52"
proof -
  have "(2::real) powi (e + 1) = 2 powi ((e - 52) + 53)"
    by (rule arg_cong [where f = "power_int 2"]) simp
  also have "\<dots> = 2 powi (e - 52) * 2 powi 53" by (subst power_int_add) simp_all
  finally show "(2::real) powi (e + 1) = 2 powi (e - 52) * 2 ^ 53" by simp
  have "(2::real) powi e = 2 powi ((e - 52) + 52)"
    by (rule arg_cong [where f = "power_int 2"]) simp
  also have "\<dots> = 2 powi (e - 52) * 2 powi 52" by (subst power_int_add) simp_all
  finally show "(2::real) powi e = 2 powi (e - 52) * 2 ^ 52" by simp
qed

text \<open>A point of the grid of a binade rounds to itself.\<close>

lemma grid_point_fixed:
  assumes "2 ^ 52 \<le> m" and "m \<le> 2 ^ 53" and "- 1022 \<le> e"
  shows "round_grid (of_int m * 2 powi (e - 52)) = of_int m * 2 powi (e - 52)"
proof -
  let ?u = "(2::real) powi (e - 52)"
  have u: "0 < ?u" by simp
  have m: "(2::real) ^ 52 \<le> of_int m" "of_int m \<le> (2::real) ^ 53"
    using assms(1,2) by (metis of_int_le_iff of_int_numeral of_int_power)+
  show ?thesis
  proof (cases "m = 2 ^ 53")
    case False
    then have "m < 2 ^ 53" using assms(2) by simp
    then have lt: "of_int m < (2::real) ^ 53"
      by (metis of_int_less_iff of_int_numeral of_int_power)
    have lo: "2 powi e \<le> \<bar>of_int m * ?u\<bar>"
      using m(1) u by (simp add: powi_split(2) [of e] abs_mult mult.commute)
    have hi: "\<bar>of_int m * ?u\<bar> < 2 powi (e + 1)"
      using lt m(1) u by (simp add: powi_split(1) [of e] abs_mult mult.commute)
    show ?thesis
      using u by (simp add: round_grid_normal [OF lo hi assms(3)])
  next
    case True
    have val: "of_int m * ?u = 2 powi (e + 1)"
      using True by (simp add: powi_split(1) [of e])
    have lo: "2 powi (e + 1) \<le> \<bar>of_int m * ?u\<bar>" unfolding val by simp
    have hi: "\<bar>of_int m * ?u\<bar> < 2 powi ((e + 1) + 1)"
      unfolding val by (simp add: power_int_strict_increasing)
    have e1: "- 1022 \<le> e + 1" using assms(3) by simp
    have q: "of_int m * ?u / 2 powi ((e + 1) - 52) = of_int ((2::int) ^ 52)"
      unfolding val using powi_split(2) [of "e + 1"] by simp
    show ?thesis
      unfolding round_grid_normal [OF lo hi e1] q round_even_int
      using powi_split(2) [of "e + 1"] val by simp
  qed
qed

text \<open>A positive normal number rounds to a point of the grid of its binade.\<close>

lemma round_grid_point:
  assumes "2 powi e \<le> x" and "x < 2 powi (e + 1)" and "- 1022 \<le> e"
  shows "\<exists>m. 2 ^ 52 \<le> m \<and> m \<le> 2 ^ 53 \<and> round_grid x = of_int m * 2 powi (e - 52)"
proof -
  let ?u = "(2::real) powi (e - 52)"
  have u: "0 < ?u" by simp
  have x: "0 < x" using assms(1) zero_less_power_int [of "2::real" e] by linarith
  have "of_int ((2::int) ^ 52) \<le> x / ?u"
    using assms(1) u by (simp add: powi_split(2) [of e] pos_le_divide_eq mult.commute)
  moreover have "x / ?u \<le> of_int ((2::int) ^ 53)"
    using assms(2) u by (simp add: powi_split(1) [of e] pos_divide_le_eq mult.commute)
  ultimately have "2 ^ 52 \<le> round_even (x / ?u) \<and> round_even (x / ?u) \<le> 2 ^ 53"
    by (rule round_even_bounds)
  moreover have "round_grid x = of_int (round_even (x / ?u)) * ?u"
    using assms x by (intro round_grid_normal) simp_all
  ultimately show ?thesis by blast
qed

lemma round_grid_times4:
  assumes "2 powi (- 1022) \<le> x"
  shows "0 < round_grid x" and "round_grid (x * 4) = round_grid x * 4"
    and "round_grid (round_grid x * 4) = round_grid x * 4"
proof -
  let ?e = "\<lfloor>log 2 x\<rfloor>"
  let ?u = "(2::real) powi (?e - 52)"
  have x: "0 < x" using assms zero_less_power_int [of "2::real" "- 1022"] by linarith
  have b: "2 powi ?e \<le> x" "x < 2 powi (?e + 1)" using binade_exists [OF x] by blast+
  have e: "- 1022 \<le> ?e" by (rule binade_normal [OF assms])
  obtain m where m: "2 ^ 52 \<le> m" "m \<le> 2 ^ 53" "round_grid x = of_int m * ?u"
    using round_grid_point [OF b e] by blast
  have "(0::int) < 2 ^ 52" by simp
  then have "0 < m" using m(1) by linarith
  then have mp: "(0::real) < of_int m" by simp
  show "0 < round_grid x" unfolding m(3) using mp by simp
  have four: "(2::real) powi ((?e + 2) - 52) = ?u * 4"
  proof -
    have "(2::real) powi ((?e + 2) - 52) = 2 powi ((?e - 52) + 2)"
      by (rule arg_cong [where f = "power_int 2"]) simp
    also have "\<dots> = ?u * 2 powi 2" by (subst power_int_add) simp_all
    finally show ?thesis by simp
  qed
  have b4: "2 powi (?e + 2) \<le> \<bar>x * 4\<bar>" "\<bar>x * 4\<bar> < 2 powi ((?e + 2) + 1)"
  proof -
    have "(2::real) powi (?e + 2) = 2 powi ?e * 2 powi 2" by (subst power_int_add) simp_all
    then show "2 powi (?e + 2) \<le> \<bar>x * 4\<bar>" using b(1) x by simp
    have "(2::real) powi ((?e + 2) + 1) = 2 powi ((?e + 1) + 2)"
      by (rule arg_cong [where f = "power_int 2"]) simp
    also have "\<dots> = 2 powi (?e + 1) * 2 powi 2" by (subst power_int_add) simp_all
    finally show "\<bar>x * 4\<bar> < 2 powi ((?e + 2) + 1)" using b(2) x by simp
  qed
  have e2: "- 1022 \<le> ?e + 2" using e by linarith
  have "round_grid (x * 4) = of_int (round_even (x * 4 / (?u * 4))) * (?u * 4)"
    using round_grid_normal [OF b4 e2] unfolding four .
  also have "x * 4 / (?u * 4) = x / ?u" by simp
  also have "of_int (round_even (x / ?u)) * (?u * 4) = round_grid x * 4"
    using round_grid_normal [of ?e x] b e x by simp
  finally show "round_grid (x * 4) = round_grid x * 4" .
  have "round_grid (of_int m * 2 powi ((?e + 2) - 52)) = of_int m * 2 powi ((?e + 2) - 52)"
    by (rule grid_point_fixed [OF m(1,2) e2])
  then show "round_grid (round_grid x * 4) = round_grid x * 4"
    unfolding four m(3) by (simp add: mult.assoc)
qed

lemma fl64_pos:
  assumes "2 powi e \<le> x" and "x < 2 powi (e + 1)" and "- 1022 \<le> e" and "e \<le> 1022"
  shows "fl64 x = Num (of_int (round_even (x / 2 powi (e - 52))) * 2 powi (e - 52))"
proof -
  have x: "0 < x" using assms(1) zero_less_power_int [of "2::real" e] by linarith
  obtain m where m: "2 ^ 52 \<le> m" "m \<le> 2 ^ 53" "round_grid x = of_int m * 2 powi (e - 52)"
    using round_grid_point [OF assms(1-3)] by blast
  have "(0::int) < 2 ^ 52" by simp
  then have "0 < m" using m(1) by linarith
  then have mp: "(0::real) < of_int m" by simp
  have "of_int m \<le> (2::real) ^ 53"
    using m(2) by (metis of_int_le_iff of_int_numeral of_int_power)
  then have "round_grid x \<le> 2 powi (e + 1)"
    unfolding m(3) powi_split(1) [of e] by (simp add: mult.commute)
  also have "(2::real) powi (e + 1) \<le> 2 powi 1023"
    using assms(4) by (intro power_int_increasing) simp_all
  also have "\<dots> < overflow64" by (simp add: overflow64_def)
  finally have "round_grid x < overflow64" .
  moreover have "0 < round_grid x" unfolding m(3) using mp by simp
  ultimately have "\<not> overflow64 \<le> \<bar>round_grid x\<bar>" by simp
  then show ?thesis
    using x round_grid_normal [of e x] assms(1-3) by (simp add: fl64_def)
qed

lemma grid_240:
  assumes "0 < T" and "T < overflow64"
  shows "js_mul (js_div (Num 60) (Num T)) (Num 4) = js_div (Num 240) (Num T)"
    and "js_div (Num 60) (Num T) = PosInf \<or> (\<exists>y. 0 < y \<and> js_div (Num 60) (Num T) = Num y)"
    and "js_mul (js_div (Num 60) (Num T)) (Num 4) \<noteq> Num 0"
proof -
  let ?x = "60 / T"
  let ?y = "round_grid ?x"
  have "(2::real) powi (- 1022) = 4 / 2 ^ 1024" by simp
  also have "\<dots> \<le> 60 / 2 ^ 1024" by simp
  also have "\<dots> \<le> ?x"
    using assms unfolding overflow64_def by (intro divide_left_mono) simp_all
  finally have n: "2 powi (- 1022) \<le> ?x" .
  note r = round_grid_times4 [OF n]
  have x: "?x \<noteq> 0" "0 < ?x" "240 / T \<noteq> 0" "0 < 240 / T" "T \<noteq> 0"
    using assms(1) by simp_all
  have r2: "round_grid (240 / T) = ?y * 4" using r(2) by simp
  have y4: "?y * 4 \<noteq> 0" "0 < ?y * 4" "\<bar>?y\<bar> = ?y" "\<bar>?y * 4\<bar> = ?y * 4"
    using r(1) by simp_all
  have d60: "js_div (Num 60) (Num T) = (if overflow64 \<le> ?y then PosInf else Num ?y)"
    unfolding js_div.simps fl64_def using x y4(3) by simp
  have d240: "js_div (Num 240) (Num T)
      = (if overflow64 \<le> ?y * 4 then PosInf else Num (?y * 4))"
    unfolding js_div.simps fl64_def r2 using x y4(4) by simp
  have m4: "js_mul (Num ?y) (Num 4) = (if overflow64 \<le> ?y * 4 then PosInf else Num (?y * 4))"
    unfolding js_mul.simps fl64_def r(3) using y4 by simp
  have big: "overflow64 \<le> ?y \<Longrightarrow> overflow64 \<le> ?y * 4" using r(1) by simp
  show "js_mul (js_div (Num 60) (Num T)) (Num 4) = js_div (Num 240) (Num T)"
  proof (cases "overflow64 \<le> ?y")
    case True
    then show ?thesis unfolding d60 d240 using big by simp
  next
    case False
    then show ?thesis unfolding d60 d240 using m4 by simp
  qed
  show "js_div (Num 60) (Num T) = PosInf \<or> (\<exists>y. 0 < y \<and> js_div (Num 60) (Num T) = Num y)"
    unfolding d60 using r(1) by auto
  show "js_mul (js_div (Num 60) (Num T)) (Num 4) \<noteq> Num 0"
  proof (cases "overflow64 \<le> ?y")
    case True
    then show ?thesis unfolding d60 by simp
  next
    case False
    then show ?thesis unfolding d60 using m4 y4(1) by simp
  qed
qed

lemma round_even_numeral [simp]: "round_even (numeral n) = numeral n"
  using round_even_int [of "numeral n"] by simp

text \<open>The bar grid at given inputs, from the three roundings of the source.\<close>

lemma grid_eval:
  assumes "T \<noteq> 0" and "fl64 (60 / T) = Num y1" and "fl64 (y1 * 4) = Num y2" and "y2 \<noteq> 0"
    and "fl64 (D / y2) = Num y3"
  shows "beatDuration T = y1" and "bars_js T D = Num (of_int \<lfloor>y3\<rfloor>)"
    and "bar_count T D = \<lfloor>y3\<rfloor>"
  using assms by (simp_all add: beatDuration_def bar_count_def bars_js_def beatDuration_js_def)

lemma bars_zero_tempo: "beatDuration_js 0 = PosInf" "bars_js 0 D = Num 0" "bar_count 0 D = 0"
  by (simp_all add: bar_count_def bars_js_def beatDuration_js_def)

lemma fl64_half: "fl64 (1 / 2) = Num (1 / 2)"
  by (subst fl64_pos [where e = "- 1"]) (simp_all add: round_even_def Let_def)

lemma grid_120:
  "beatDuration 120 = 1 / 2" "beatDuration_js 120 = Num (1 / 2)"
  "bars_js 120 12 = Num 6" "bar_count 120 12 = 6" "bar_count 120 2 = 1" "bar_count 120 1 = 0"
  "bars_js 120 1 = Num 0"
proof -
  have y1: "fl64 (60 / 120) = Num (1 / 2)" using fl64_half by simp
  have y2: "fl64 (1 / 2 * 4) = Num 2"
    by (subst fl64_pos [where e = 1]) (simp_all add: round_even_def Let_def)
  have q12: "fl64 (12 / 2) = Num 6"
    by (subst fl64_pos [where e = 2]) (simp_all add: round_even_def Let_def)
  have q2: "fl64 (2 / 2) = Num 1"
    by (subst fl64_pos [where e = 0]) (simp_all add: round_even_def Let_def)
  have q1: "fl64 (1 / 2) = Num (1 / 2)" by (rule fl64_half)
  have n: "(120::real) \<noteq> 0" "(2::real) \<noteq> 0" by simp_all
  show "beatDuration 120 = 1 / 2" using grid_eval(1) [OF n(1) y1 y2 n(2) q12] .
  show "beatDuration_js 120 = Num (1 / 2)" using y1 by (simp add: beatDuration_js_def)
  show "bars_js 120 12 = Num 6" using grid_eval(2) [OF n(1) y1 y2 n(2) q12] by simp
  show "bar_count 120 12 = 6" using grid_eval(3) [OF n(1) y1 y2 n(2) q12] by simp
  show "bar_count 120 2 = 1" using grid_eval(3) [OF n(1) y1 y2 n(2) q2] by simp
  show "bar_count 120 1 = 0" using grid_eval(3) [OF n(1) y1 y2 n(2) q1] by simp
  show "bars_js 120 1 = Num 0" using grid_eval(2) [OF n(1) y1 y2 n(2) q1] by simp
qed


text \<open>
  Tempo 61 with the double nearest to \<open>240 / 61\<close> as the duration: that double is below
  the exact quotient, and the source runs one bar.
\<close>

lemma grid_61:
  "bar_count 61 (8859540250564910 / 2 ^ 51) = 1" "(8859540250564910 / 2 ^ 51 :: real) < 240 / 61"
proof -
  have y1: "fl64 (60 / 61) = Num (8859540250564910 / 2 ^ 53)"
    by (subst fl64_pos [where e = "- 1"]) (simp_all add: round_even_def Let_def)
  have y2: "fl64 (8859540250564910 / 2 ^ 53 * 4) = Num (8859540250564910 / 2 ^ 51)"
    by (subst fl64_pos [where e = 1]) (simp_all add: round_even_def Let_def)
  have q: "fl64 (8859540250564910 / 2 ^ 51 / (8859540250564910 / 2 ^ 51)) = Num 1"
    by (subst fl64_pos [where e = 0]) (simp_all add: round_even_def Let_def)
  have n: "(61::real) \<noteq> 0" "(8859540250564910 / 2 ^ 51 :: real) \<noteq> 0" by simp_all
  show "bar_count 61 (8859540250564910 / 2 ^ 51) = 1"
    using grid_eval(3) [OF n(1) y1 y2 n(2) q] by simp
  show "(8859540250564910 / 2 ^ 51 :: real) < 240 / 61" by simp
qed

lemma grid_200: "bar_count 200 12 = 10" "bar_count 200 2 = 1" "0 < beatDuration 200"
proof -
  have y1: "fl64 (60 / 200) = Num (5404319552844595 / 2 ^ 54)"
    by (subst fl64_pos [where e = "- 2"]) (simp_all add: round_even_def Let_def)
  have y2: "fl64 (5404319552844595 / 2 ^ 54 * 4) = Num (5404319552844595 / 2 ^ 52)"
    by (subst fl64_pos [where e = 0]) (simp_all add: round_even_def Let_def)
  have q12: "fl64 (12 / (5404319552844595 / 2 ^ 52)) = Num 10"
    by (subst fl64_pos [where e = 3]) (simp_all add: round_even_def Let_def)
  have q2: "fl64 (2 / (5404319552844595 / 2 ^ 52)) = Num (7505999378950827 / 2 ^ 52)"
    by (subst fl64_pos [where e = 0]) (simp_all add: round_even_def Let_def)
  have n: "(200::real) \<noteq> 0" "(5404319552844595 / 2 ^ 52 :: real) \<noteq> 0" by simp_all
  show "bar_count 200 12 = 10" using grid_eval(3) [OF n(1) y1 y2 n(2) q12] by simp
  show "bar_count 200 2 = 1" using grid_eval(3) [OF n(1) y1 y2 n(2) q2] by simp
  show "0 < beatDuration 200" using grid_eval(1) [OF n(1) y1 y2 n(2) q12] by simp
qed

lemma grid_10: "bar_count 10 12 = 0" "bars_js 10 12 = Num 0"
proof -
  have y1: "fl64 (60 / 10) = Num 6"
    by (subst fl64_pos [where e = 2]) (simp_all add: round_even_def Let_def)
  have y2: "fl64 (6 * 4) = Num 24"
    by (subst fl64_pos [where e = 4]) (simp_all add: round_even_def Let_def)
  have q: "fl64 (12 / 24) = Num (1 / 2)" using fl64_half by simp
  have n: "(10::real) \<noteq> 0" "(24::real) \<noteq> 0" by simp_all
  show "bar_count 10 12 = 0" using grid_eval(3) [OF n(1) y1 y2 n(2) q] by simp
  show "bars_js 10 12 = Num 0" using grid_eval(2) [OF n(1) y1 y2 n(2) q] by simp
qed

subsection \<open>Loops and drums\<close>


lemma for_each_all:
  assumes "\<And>i k. list_all P (fst (body i k))"
  shows "list_all P (fst (for_each body xs k))"
proof (induction xs arbitrary: k)
  case Nil
  show ?case by simp
next
  case (Cons i xs)
  obtain cs k' where b: "body i k = (cs, k')" by (cases "body i k")
  obtain ds k'' where r: "for_each body xs k' = (ds, k'')" by (cases "for_each body xs k'")
  have "list_all P cs" using assms [of i k] b by simp
  moreover have "list_all P ds" using Cons.IH [of k'] r by simp
  ultimately show ?case using b r by simp
qed






lemma upt8: "[0 ..< 8] = [0, 1, 2, 3, 4, 5, 6, 7::nat]"
  by (simp add: upt_rec)






subsection \<open>The drum grid\<close>







lemma beat_read:
  assumes "0 < T" and "T < overflow64"
  shows "(beatDuration_js T = Num (beatDuration T) \<and> 0 < beatDuration T)
       \<or> (beatDuration_js T = PosInf \<and> bar_count T D = 0)"
proof -
  consider "beatDuration_js T = PosInf" | y where "0 < y" "beatDuration_js T = Num y"
    using grid_240(2) [OF assms] unfolding beatDuration_js_def by blast
  then show ?thesis
  proof cases
    case 1
    then show ?thesis by (simp add: bar_count_def bars_js_def)
  next
    case 2
    then show ?thesis by (simp add: beatDuration_def)
  qed
qed



subsection \<open>The style profile resolver\<close>

lemma startsWith_iff: "startsWith s sub \<longleftrightarrow> (\<exists>ss. s = sub @ ss)"
  by (induction s sub rule: startsWith.induct) auto

lemma includes_str_iff: "includes_str s sub \<longleftrightarrow> (\<exists>ps ss. s = ps @ sub @ ss)"
proof (induction s)
  case Nil
  show ?case by auto
next
  case (Cons d ds)
  show ?case
  proof
    assume "includes_str (d # ds) sub"
    then consider "startsWith (d # ds) sub" | "includes_str ds sub" by auto
    then show "\<exists>ps ss. d # ds = ps @ sub @ ss"
    proof cases
      case 1
      then obtain ss where "d # ds = sub @ ss" using startsWith_iff by blast
      then have "d # ds = [] @ sub @ ss" by simp
      then show ?thesis by blast
    next
      case 2
      then obtain ps ss where "ds = ps @ sub @ ss" using Cons.IH by blast
      then have "d # ds = (d # ps) @ sub @ ss" by simp
      then show ?thesis by blast
    qed
  next
    assume "\<exists>ps ss. d # ds = ps @ sub @ ss"
    then obtain ps ss where e: "d # ds = ps @ sub @ ss" by blast
    show "includes_str (d # ds) sub"
    proof (cases ps)
      case Nil
      then have "startsWith (d # ds) sub" using e startsWith_iff by auto
      then show ?thesis by simp
    next
      case (Cons q qs)
      then have "ds = qs @ sub @ ss" using e by simp
      then have "includes_str ds sub" using Cons.IH by blast
      then show ?thesis by simp
    qed
  qed
qed

lemma combined_labels_lower:
  "combined_labels style tn = toLowerCase style @ '' '' @ toLowerCase tn"
  by (simp add: combined_labels_def toLowerCase_def lower_char_def)

lemma getStyleProfile_case_insensitive:
  assumes "toLowerCase style = toLowerCase style'" and "toLowerCase tn = toLowerCase tn'"
  shows "getStyleProfile style tn = getStyleProfile style' tn'"
proof -
  have "combined_labels style tn = combined_labels style' tn'"
    using assms by (simp add: combined_labels_lower)
  then show ?thesis by (simp add: getStyleProfile_def)
qed

lemma getStyleProfile_refines: "getStyleProfile style tn = resolve_spec style tn"
  by (simp add: getStyleProfile_def resolve_spec_def combined_labels_def keyword_groups_def
      dark_profile_def default_profile_def Let_def)

lemma first_match_range: "first_match c gs \<in> set (default_profile # map snd gs)"
  by (induction c gs rule: first_match.induct) auto

lemma first_match_default:
  "\<not> list_ex (includes_str c) (concat (map fst gs)) \<Longrightarrow> first_match c gs = default_profile"
  by (induction c gs rule: first_match.induct) auto

lemma profiles_well_formed:
  assumes "p \<in> set (default_profile # map snd keyword_groups)"
  shows "5 \<le> length (scale p)" and "0 \<le> reverbAmount p" and "reverbAmount p \<le> 1"
  using assms by (auto simp: keyword_groups_def default_profile_def dark_profile_def)

lemma scenario_A:
  "getStyleProfile ''Dark Industrial Techno'' ''Serious'' = dark_profile"
  "includes_str (toLowerCase (''Dark Industrial Techno'' @ '' '' @ ''Serious'')) ''techno''"
  by (simp_all add: getStyleProfile_def combined_labels_def toLowerCase_def lower_char_def
      dark_profile_def)

text \<open>
  Claim C5. The resolver is a total function of the two labels: for every pair of strings
  it returns the default profile or the profile of a keyword group. It is the search that
  the specification describes: the labels are joined with a blank and lower-cased, the
  groups are tried in their fixed order, and the first group with a keyword that occurs in
  the joined text as a contiguous substring gives the profile. Labels that agree after
  lower-casing resolve to the same profile. Every returned profile has a scale of at
  least five frequencies and a reverb amount between 0 and 1. When no keyword occurs, the
  result is the default profile. \<open>resolve("Dark Industrial Techno", "Serious")\<close> is the
  profile of the dark group, whose reverb amount is 0.6, although the keyword
  \<open>techno\<close> of a later group occurs too.
\<close>

theorem style_resolver:
  "getStyleProfile style tn \<in> set (default_profile # map snd keyword_groups)
   \<and> getStyleProfile style tn = resolve_spec style tn
   \<and> (includes_str c kw \<longleftrightarrow> (\<exists>ps ss. c = ps @ kw @ ss))
   \<and> (toLowerCase style = toLowerCase style' \<and> toLowerCase tn = toLowerCase tn'
        \<longrightarrow> getStyleProfile style tn = getStyleProfile style' tn')
   \<and> 5 \<le> length (scale (getStyleProfile style tn))
   \<and> 0 \<le> reverbAmount (getStyleProfile style tn)
   \<and> reverbAmount (getStyleProfile style tn) \<le> 1
   \<and> (\<not> list_ex (includes_str (toLowerCase (style @ '' '' @ tn))) all_keywords
        \<longrightarrow> getStyleProfile style tn = default_profile)
   \<and> getStyleProfile ''Dark Industrial Techno'' ''Serious'' = dark_profile
   \<and> reverbAmount dark_profile = 0.6
   \<and> includes_str (toLowerCase (''Dark Industrial Techno'' @ '' '' @ ''Serious'')) ''techno''"
proof -
  have range: "getStyleProfile style tn \<in> set (default_profile # map snd keyword_groups)"
    unfolding getStyleProfile_refines resolve_spec_def by (rule first_match_range)
  have unmatched: "\<not> list_ex (includes_str (toLowerCase (style @ '' '' @ tn))) all_keywords
        \<longrightarrow> getStyleProfile style tn = default_profile"
    unfolding getStyleProfile_refines resolve_spec_def all_keywords_def
    using first_match_default by blast
  have ci: "toLowerCase style = toLowerCase style' \<and> toLowerCase tn = toLowerCase tn'
        \<longrightarrow> getStyleProfile style tn = getStyleProfile style' tn'"
    using getStyleProfile_case_insensitive by blast
  have dark: "reverbAmount dark_profile = 0.6" by (simp add: dark_profile_def)
  show ?thesis
    using range getStyleProfile_refines [of style tn] includes_str_iff [of c kw] ci
      profiles_well_formed [OF range] unmatched scenario_A dark
    by blast
qed

theorem style_resolver_witness:
  "getStyleProfile ''DARK Ambient'' ''Calm'' = getStyleProfile ''dark ambient'' ''calm''
   \<and> getStyleProfile ''Folk'' ''Warm'' = default_profile
   \<and> 5 \<le> length (scale (getStyleProfile ''Folk'' ''Warm''))"
proof -
  have l: "toLowerCase ''DARK Ambient'' = toLowerCase ''dark ambient''
      \<and> toLowerCase ''Calm'' = toLowerCase ''calm''"
    by (simp add: toLowerCase_def lower_char_def)
  have u: "\<not> list_ex (includes_str (toLowerCase (''Folk'' @ '' '' @ ''Warm''))) all_keywords"
    by (simp add: all_keywords_def keyword_groups_def toLowerCase_def lower_char_def)
  show ?thesis
    using l u style_resolver [of "''DARK Ambient''" "''Calm''" c kw "''dark ambient''" "''calm''"]
      style_resolver [of "''Folk''" "''Warm''" c kw "''Folk''" "''Warm''"]
    by blast
qed

subsection \<open>The melody\<close>

lemma random_sourceD: "random_source rnd \<Longrightarrow> 0 \<le> rnd i \<and> rnd i < 1"
  by (simp add: random_source_def)

lemma noteIdx_in_range:
  assumes "0 \<le> r" and "r < 1" and "scale p \<noteq> []"
  shows "noteIdx p r < length (scale p)"
proof -
  let ?n = "length (scale p)"
  have n: "0 < real ?n" using assms(3) by simp
  have "r * real ?n < real ?n" using assms(2) n by simp
  then have "\<lfloor>r * real ?n\<rfloor> < int ?n" by (simp add: floor_less_iff)
  then show ?thesis using n unfolding noteIdx_def by linarith
qed


lemma notes_of_all:
  "list_all (\<lambda>c. case c of ScheduleNote e \<Rightarrow> Q e | _ \<Rightarrow> True) cs \<Longrightarrow> \<forall>e \<in> set (notes_of cs). Q e"
  by (induction cs rule: notes_of.induct) auto



lemma melody_pitches:
  assumes "random_source rnd" and "scale p \<noteq> []"
  shows "\<forall>e \<in> set (notes_of (fst (melody p bd bars rnd k))).
           wave e = leadWave p \<and> freq e \<in> set (scale p)
           \<and> (duration e = 0.9 * bd \<or> duration e = 1.8 * bd)"
proof (rule notes_of_all)
  let ?P = "\<lambda>c. case c of
      ScheduleNote e \<Rightarrow> wave e = leadWave p \<and> freq e \<in> set (scale p)
         \<and> (duration e = 0.9 * bd \<or> duration e = 1.8 * bd)
    | _ \<Rightarrow> True"
  have beat: "list_all ?P (fst (melody_beat p bd rnd bar beat j))" for bar beat j
  proof -
    have "noteIdx p (rnd (j + 1)) < length (scale p)"
      using noteIdx_in_range random_sourceD [OF assms(1)] assms(2) by blast
    then show ?thesis by (simp add: melody_beat_def)
  qed
  show "list_all ?P (fst (melody p bd bars rnd k))"
    unfolding melody_def melody_bar_def by (intro for_each_all beat)
qed



lemma const_source_ok: "0 \<le> x \<Longrightarrow> x < 1 \<Longrightarrow> random_source (const_source x)"
  by (simp add: random_source_def const_source_def)



subsection \<open>The parts of the arrangement\<close>

lemma arrange_parts:
  "arrange T p D rnd k =
     fst (melody p (beatDuration T) (bar_count T D) rnd k)
     @ bass_line p (beatDuration T) (bar_count T D)
     @ fst (pad p (beatDuration T) (bar_count T D) rnd
              (snd (melody p (beatDuration T) (bar_count T D) rnd k)))
     @ drums (beatDuration T) (bar_count T D)"
  by (simp add: arrange_def Let_def split: prod.split)


lemma resolved_scale: "5 \<le> length (scale (getStyleProfile style tn))"
  using profiles_well_formed(1) first_match_range
  unfolding getStyleProfile_refines resolve_spec_def by blast

subsection \<open>The bass line\<close>

lemma bassScale_nth: "i < length (scale p) \<Longrightarrow> bassScale p ! i = scale p ! i / 2"
  by (simp add: bassScale_def)

lemma bass_bar_notes:
  "notes_of (bass_bar p bd bar)
     = map (\<lambda>beat. \<lparr>time = barStart bd bar + real beat * bd,
                     freq = bassScale p ! (pattern ! beat mod length (bassScale p)),
                     duration = bd * 0.85, wave = bassWave p, gain = 0.22, detune = None\<rparr>)
         [0, 1, 2, 3]"
  by (simp add: bass_bar_def bass_beat_def)

lemma bass_bar_beat:
  assumes "scale p \<noteq> []" and "beat < 4"
  shows "time (notes_of (bass_bar p bd bar) ! beat) = barStart bd bar + real beat * bd
       \<and> pattern ! beat mod length (scale p) < length (scale p)
       \<and> freq (notes_of (bass_bar p bd bar) ! beat)
           = scale p ! (pattern ! beat mod length (scale p)) / 2
       \<and> wave (notes_of (bass_bar p bd bar) ! beat) = bassWave p
       \<and> duration (notes_of (bass_bar p bd bar) ! beat) = 0.85 * bd
       \<and> gain (notes_of (bass_bar p bd bar) ! beat) = 0.22
       \<and> detune (notes_of (bass_bar p bd bar) ! beat) = None"
proof -
  have m: "pattern ! beat mod length (scale p) < length (scale p)"
    using assms(1) by simp
  have l: "length (bassScale p) = length (scale p)" by (simp add: bassScale_def)
  have "beat = 0 \<or> beat = 1 \<or> beat = 2 \<or> beat = 3" using assms(2) by linarith
  then show ?thesis
    using m bassScale_nth [OF m] unfolding bass_bar_notes l
    by (elim disjE) simp_all
qed

lemma bass_line_length: "length (notes_of (bass_line p bd bars)) = 4 * nat bars"
proof -
  have "length (notes_of (concat (map (bass_bar p bd) xs))) = 4 * length xs" for xs
  proof (induction xs)
    case Nil
    show ?case by simp
  next
    case (Cons x xs)
    have "notes_of (a @ b) = notes_of a @ notes_of b" for a b :: "call list"
      by (induction a rule: notes_of.induct) simp_all
    then show ?case using Cons by (simp add: bass_bar_notes)
  qed
  then show ?thesis by (simp add: bass_line_def bar_range_def)
qed

lemma bass_bar_freqs:
  assumes "4 \<le> length (scale p)"
  shows "map freq (notes_of (bass_bar p bd bar))
           = [scale p ! 0 / 2, scale p ! 2 / 2, scale p ! 0 / 2, scale p ! 3 / 2]"
proof -
  have l: "length (bassScale p) = length (scale p)" by (simp add: bassScale_def)
  have i: "0 < length (scale p)" "2 < length (scale p)" "3 < length (scale p)"
    using assms by linarith+
  have n: "bassScale p ! 0 = scale p ! 0 / 2" "bassScale p ! 2 = scale p ! 2 / 2"
    "bassScale p ! 3 = scale p ! 3 / 2"
    by (rule bassScale_nth [OF i(1)], rule bassScale_nth [OF i(2)], rule bassScale_nth [OF i(3)])
  show ?thesis
    using assms unfolding bass_bar_notes l by (simp add: pattern_def n)
qed

text \<open>
  Claim C4. The bass line is the bass notes of the bars \<open>0 ..< bars\<close>, bar after bar, and
  the arrangement schedules it between the melody and the pad. Every bar has exactly four
  bass calls, all of them notes, one on each beat. The note on beat \<open>beat\<close> has the
  frequency \<open>scale[pattern[beat] % scaleLength] / 2\<close> with \<open>pattern = [0, 2, 0, 3]\<close> (the index
  is inside the scale), the bass waveform of the profile, the duration 0.85 times the
  beat length, the gain 0.22 and no detune. For a resolved profile the four frequencies
  are half of the scale entries 0, 2, 0 and 3.
\<close>

theorem bass_line_pattern:
  "scale p \<noteq> [] \<Longrightarrow>
     bass_line p bd bars = concat (map (bass_bar p bd) [0 ..< nat bars])
   \<and> arrange T p D rnd k =
       fst (melody p (beatDuration T) (bar_count T D) rnd k)
       @ bass_line p (beatDuration T) (bar_count T D)
       @ fst (pad p (beatDuration T) (bar_count T D) rnd
                (snd (melody p (beatDuration T) (bar_count T D) rnd k)))
       @ drums (beatDuration T) (bar_count T D)
   \<and> length (bass_bar p bd bar) = 4
   \<and> map ScheduleNote (notes_of (bass_bar p bd bar)) = bass_bar p bd bar
   \<and> length (notes_of (bass_line p bd bars)) = 4 * nat bars
   \<and> pattern = [0, 2, 0, 3]
   \<and> (\<forall>beat < 4.
          time (notes_of (bass_bar p bd bar) ! beat) = barStart bd bar + real beat * bd
        \<and> pattern ! beat mod length (scale p) < length (scale p)
        \<and> freq (notes_of (bass_bar p bd bar) ! beat)
            = scale p ! (pattern ! beat mod length (scale p)) / 2
        \<and> wave (notes_of (bass_bar p bd bar) ! beat) = bassWave p
        \<and> duration (notes_of (bass_bar p bd bar) ! beat) = 0.85 * bd
        \<and> gain (notes_of (bass_bar p bd bar) ! beat) = 0.22
        \<and> detune (notes_of (bass_bar p bd bar) ! beat) = None)
   \<and> map freq (notes_of (bass_bar (getStyleProfile style tn) bd bar))
       = [scale (getStyleProfile style tn) ! 0 / 2, scale (getStyleProfile style tn) ! 2 / 2,
          scale (getStyleProfile style tn) ! 0 / 2, scale (getStyleProfile style tn) ! 3 / 2]"
proof -
  assume sc: "scale p \<noteq> []"
  have unfold: "bass_line p bd bars = concat (map (bass_bar p bd) [0 ..< nat bars])"
    by (simp add: bass_line_def bar_range_def)
  have four: "length (bass_bar p bd bar) = 4" by (simp add: bass_bar_def)
  have nts: "map ScheduleNote (notes_of (bass_bar p bd bar)) = bass_bar p bd bar"
    by (simp add: bass_bar_def bass_beat_def)
  have resolved: "4 \<le> length (scale (getStyleProfile style tn))"
    using resolved_scale [of style tn] by simp
  show ?thesis
    using unfold arrange_parts [of T p D rnd k] four nts bass_line_length [of p bd bars]
      pattern_def bass_bar_beat [OF sc, of _ bd bar] bass_bar_freqs [OF resolved, of bd bar]
    by (intro conjI allI impI) blast+
qed

theorem bass_line_pattern_witness:
  "scale default_profile \<noteq> []
   \<and> length (bass_bar default_profile (1 / 2) 0) = 4
   \<and> freq (notes_of (bass_bar default_profile (1 / 2) 0) ! 1) = NOTE_G4 / 2
   \<and> freq (notes_of (bass_bar default_profile (1 / 2) 0) ! 3) = NOTE_A4 / 2
   \<and> duration (notes_of (bass_bar default_profile (1 / 2) 0) ! 3) = 17 / 40"
proof -
  have sc: "scale default_profile \<noteq> []" by (simp add: default_profile_def)
  note t = bass_line_pattern [OF sc, of "1 / 2" 1 120 2 "const_source 0" 0 0 "''Folk''" "''Warm''"]
  have b: "(1::nat) < 4" "(3::nat) < 4" by simp_all
  have "freq (notes_of (bass_bar default_profile (1 / 2) 0) ! 1) = NOTE_G4 / 2"
    using t b(1) by (simp add: default_profile_def pattern_def)
  moreover have "freq (notes_of (bass_bar default_profile (1 / 2) 0) ! 3) = NOTE_A4 / 2"
    using t b(2) by (simp add: default_profile_def pattern_def)
  moreover have "duration (notes_of (bass_bar default_profile (1 / 2) 0) ! 3) = 17 / 40"
    using t b(2) by simp
  ultimately show ?thesis using sc t by blast
qed

subsection \<open>The chord pad\<close>

lemma pad_bar_unrolled:
  "pad_bar p bd rnd bar k =
     ([ScheduleNote \<lparr>time = barStart bd bar, freq = chordRoot p, duration = bd * 3.8,
                      wave = sine, gain = 0.06, detune = Some (rnd k * 6 - 3)\<rparr>,
       ScheduleNote \<lparr>time = barStart bd bar, freq = chordRoot p * 1.25, duration = bd * 3.8,
                      wave = sine, gain = 0.06, detune = Some (rnd (k + 1) * 6 - 3)\<rparr>,
       ScheduleNote \<lparr>time = barStart bd bar, freq = chordRoot p * 1.5, duration = bd * 3.8,
                      wave = sine, gain = 0.06, detune = Some (rnd (k + 2) * 6 - 3)\<rparr>],
      k + 3)"
  by (simp add: pad_bar_def pad_note_def)


lemma detune_range:
  assumes "random_source rnd"
  shows "- 3 \<le> rnd i * 6 - 3 \<and> rnd i * 6 - 3 < 3"
  using random_sourceD [OF assms, of i] by simp

lemma pad_all_notes:
  assumes "random_source rnd"
  shows "\<forall>e \<in> set (notes_of (fst (pad p bd bars rnd k))).
           wave e = sine \<and> gain e = 0.06 \<and> duration e = 3.8 * bd
         \<and> freq e \<in> {chordRoot p, chordRoot p * 1.25, chordRoot p * 1.5}
         \<and> (\<exists>d. detune e = Some d \<and> - 3 \<le> d \<and> d < 3)"
proof (rule notes_of_all)
  let ?P = "\<lambda>c. case c of
      ScheduleNote e \<Rightarrow> wave e = sine \<and> gain e = 0.06 \<and> duration e = 3.8 * bd
         \<and> freq e \<in> {chordRoot p, chordRoot p * 1.25, chordRoot p * 1.5}
         \<and> (\<exists>d. detune e = Some d \<and> - 3 \<le> d \<and> d < 3)
    | _ \<Rightarrow> True"
  have bar: "list_all ?P (fst (pad_bar p bd rnd bar j))" for bar j
    using detune_range [OF assms, of j] detune_range [OF assms, of "j + 1"]
      detune_range [OF assms, of "j + 2"]
    by (simp add: pad_bar_unrolled)
  show "list_all ?P (fst (pad p bd bars rnd k))"
    unfolding pad_def by (intro for_each_all bar)
qed



subsection \<open>The waveform preview\<close>

lemma waveform_value_range:
  "0.08 \<le> waveform_value tempo bars rnd k i \<and> waveform_value tempo bars rnd k i \<le> 1"
  by (simp add: waveform_value_def Let_def)

text \<open>
  Claim C8. For every tempo and every sample count \<open>n\<close>, \<open>generateWaveformData\<close> returns
  exactly \<open>n\<close> values (32 when the count is left out), and each of them lies in
  \<open>[0.08, 1]\<close>, whatever the random source returns.
\<close>

theorem waveform_preview:
  "length (generateWaveformData tempo (Some n) rnd k) = n
   \<and> length (generateWaveformData tempo None rnd k) = 32
   \<and> (\<forall>v \<in> set (generateWaveformData tempo (Some n) rnd k). 0.08 \<le> v \<and> v \<le> 1)
   \<and> (\<forall>i < n. generateWaveformData tempo (Some n) rnd k ! i
                   = min 1 (max 0.08
                       \<bar>sin (real i / real n * pi * 2 * (tempo / 60) * 0.7) * 0.5
                        + sin (real i / real n * pi * 2 * (tempo / 60) * 1.3) * 0.3
                        + rnd (k + i) * 0.2\<bar>))"
proof -
  have "\<forall>v \<in> set (generateWaveformData tempo (Some n) rnd k). 0.08 \<le> v \<and> v \<le> 1"
    using waveform_value_range by (auto simp: generateWaveformData_def)
  moreover have "\<forall>i < n. generateWaveformData tempo (Some n) rnd k ! i
                   = min 1 (max 0.08
                       \<bar>sin (real i / real n * pi * 2 * (tempo / 60) * 0.7) * 0.5
                        + sin (real i / real n * pi * 2 * (tempo / 60) * 1.3) * 0.3
                        + rnd (k + i) * 0.2\<bar>)"
    by (simp add: generateWaveformData_def waveform_value_def Let_def)
  ultimately show ?thesis by (simp add: generateWaveformData_def)
qed

theorem waveform_preview_witness:
  "length (generateWaveformData 120 (Some 48) (const_source (1 / 2)) 0) = 48
   \<and> generateWaveformData 120 (Some 48) (const_source (1 / 2)) 0 ! 0 = 1 / 10
   \<and> 0.08 \<le> generateWaveformData 120 (Some 48) (const_source (1 / 2)) 0 ! 47
   \<and> generateWaveformData 120 (Some 48) (const_source (1 / 2)) 0 ! 47 \<le> 1"
proof -
  note t = waveform_preview [of 120 48 "const_source (1 / 2)" 0]
  have len: "length (generateWaveformData 120 (Some 48) (const_source (1 / 2)) 0) = 48"
    using t by blast
  have "generateWaveformData 120 (Some 48) (const_source (1 / 2)) 0 ! 47
          \<in> set (generateWaveformData 120 (Some 48) (const_source (1 / 2)) 0)"
    using len by simp
  then have r: "0.08 \<le> generateWaveformData 120 (Some 48) (const_source (1 / 2)) 0 ! 47
      \<and> generateWaveformData 120 (Some 48) (const_source (1 / 2)) 0 ! 47 \<le> 1"
    using t by blast
  have "(0::nat) < 48" by simp
  then have "generateWaveformData 120 (Some 48) (const_source (1 / 2)) 0 ! 0
      = min 1 (max 0.08
                       \<bar>sin (real 0 / real 48 * pi * 2 * (120 / 60) * 0.7) * 0.5
                        + sin (real 0 / real 48 * pi * 2 * (120 / 60) * 1.3) * 0.3
                        + const_source (1 / 2) (0 + 0) * 0.2\<bar>)"
    using t by blast
  then have "generateWaveformData 120 (Some 48) (const_source (1 / 2)) 0 ! 0 = 1 / 10"
    by (simp add: const_source_def)
  then show ?thesis using len r by blast
qed

subsection \<open>The tempo clamp\<close>

lemma clamp_finite:
  "Math_max (Num 60) (Math_min (Num 180) (Math_round (Num r)))
     = Num (of_int (max 60 (min 180 \<lfloor>r + 1 / 2\<rfloor>)))"
  by (simp add: max_def min_def)

lemma clamp_cases:
  "Math_max (Num 60) (Math_min (Num 180) (Math_round (or_default x (Num 120)))) =
     (case x of
        Num r \<Rightarrow> if r = 0 then Num 120 else Num (of_int (max 60 (min 180 \<lfloor>r + 1 / 2\<rfloor>)))
      | PosInf \<Rightarrow> Num 180
      | NegInf \<Rightarrow> Num 60
      | NaN \<Rightarrow> Num 120)"
  by (cases x) (simp_all add: max_def min_def)

lemma clamp_range:
  "\<exists>n::int. Math_max (Num 60) (Math_min (Num 180) (Math_round (or_default x (Num 120))))
               = Num (of_int n) \<and> 60 \<le> n \<and> n \<le> 180"
proof (cases x)
  case (Num r)
  show ?thesis
  proof (cases "r = 0")
    case True
    have "Math_max (Num 60) (Math_min (Num 180) (Math_round (or_default x (Num 120))))
        = Num (of_int 120)"
      using Num True by (simp add: clamp_cases)
    then show ?thesis by (intro exI [of _ 120]) simp
  next
    case False
    let ?n = "max 60 (min 180 \<lfloor>r + 1 / 2\<rfloor>)"
    have "Math_max (Num 60) (Math_min (Num 180) (Math_round (or_default x (Num 120))))
        = Num (of_int ?n)"
      using Num False by (simp add: clamp_cases)
    moreover have "60 \<le> ?n \<and> ?n \<le> 180" by simp
    ultimately show ?thesis by blast
  qed
next
  case PosInf
  have "Math_max (Num 60) (Math_min (Num 180) (Math_round (or_default x (Num 120))))
        = Num (of_int 180)"
    using PosInf by (simp add: clamp_cases)
  then show ?thesis by (intro exI [of _ 180]) simp
next
  case NegInf
  have "Math_max (Num 60) (Math_min (Num 180) (Math_round (or_default x (Num 120))))
        = Num (of_int 60)"
    using NegInf by (simp add: clamp_cases)
  then show ?thesis by (intro exI [of _ 60]) simp
next
  case NaN
  have "Math_max (Num 60) (Math_min (Num 180) (Math_round (or_default x (Num 120))))
        = Num (of_int 120)"
    using NaN by (simp add: clamp_cases)
  then show ?thesis by (intro exI [of _ 120]) simp
qed

text \<open>
  Claim C10. Whatever value the model's answer has in its \<open>bpm\<close> field, and however the
  language reads a string as a number, the tempo that \<open>generateJingle\<close> returns is a
  finite number that is an integer between 60 and 180. A finite value other than zero is
  rounded to the nearest integer (a half goes up) and then clamped to \<open>[60, 180]\<close>; a
  missing field and every value that \<open>Number\<close> turns into \<open>NaN\<close> give 120 (and so do
  \<open>null\<close>, \<open>false\<close> and zero, which are falsy); the infinities give the bounds.
\<close>

theorem bpm_clamped:
  "(\<exists>n::int. clamp_bpm parse v = Num (of_int n) \<and> 60 \<le> n \<and> n \<le> 180)
   \<and> clamp_bpm parse (JNumber (Num r))
       = (if r = 0 then Num 120 else Num (of_int (max 60 (min 180 \<lfloor>r + 1 / 2\<rfloor>))))
   \<and> \<lfloor>r + 1 / 2\<rfloor> = round r
   \<and> clamp_bpm parse JUndefined = Num 120
   \<and> clamp_bpm parse JNull = Num 120
   \<and> (Number_js parse v = NaN \<longrightarrow> clamp_bpm parse v = Num 120)
   \<and> clamp_bpm parse (JNumber PosInf) = Num 180
   \<and> clamp_bpm parse (JNumber NegInf) = Num 60
   \<and> clamp_bpm parse (JNumber (Num 128)) = Num 128
   \<and> clamp_bpm parse (JNumber (Num 200)) = Num 180
   \<and> clamp_bpm parse (JNumber (Num 12.5)) = Num 60
   \<and> clamp_bpm parse (JNumber (Num 99.5)) = Num 100"
proof -
  have range: "\<exists>n::int. clamp_bpm parse v = Num (of_int n) \<and> 60 \<le> n \<and> n \<le> 180"
    unfolding clamp_bpm_def by (rule clamp_range)
  have c: "clamp_bpm parse w =
     (case Number_js parse w of
        Num r \<Rightarrow> if r = 0 then Num 120 else Num (of_int (max 60 (min 180 \<lfloor>r + 1 / 2\<rfloor>)))
      | PosInf \<Rightarrow> Num 180
      | NegInf \<Rightarrow> Num 60
      | NaN \<Rightarrow> Num 120)" for w
    by (simp only: clamp_bpm_def clamp_cases)
  have finite: "clamp_bpm parse (JNumber (Num r))
       = (if r = 0 then Num 120 else Num (of_int (max 60 (min 180 \<lfloor>r + 1 / 2\<rfloor>))))"
    by (simp add: c)
  have rnd: "\<lfloor>r + 1 / 2\<rfloor> = round r" by (simp add: round_def)
  have nan: "Number_js parse v = NaN \<longrightarrow> clamp_bpm parse v = Num 120"
    by (simp add: c)
  have special: "clamp_bpm parse JUndefined = Num 120" "clamp_bpm parse JNull = Num 120"
    "clamp_bpm parse (JNumber PosInf) = Num 180" "clamp_bpm parse (JNumber NegInf) = Num 60"
    by (simp_all add: c)
  have ex: "clamp_bpm parse (JNumber (Num 128)) = Num 128"
    "clamp_bpm parse (JNumber (Num 200)) = Num 180"
    "clamp_bpm parse (JNumber (Num 12.5)) = Num 60"
    "clamp_bpm parse (JNumber (Num 99.5)) = Num 100"
    by (simp_all add: c)
  show ?thesis using range finite rnd nan special ex by (intro conjI) blast+
qed

theorem bpm_clamped_witness:
  "Number_js parse_none (JString ''fast'') = NaN
   \<and> clamp_bpm parse_none (JString ''fast'') = Num 120
   \<and> clamp_bpm parse_none (JNumber (Num 200)) = Num 180"
proof -
  have n: "Number_js parse_none (JString ''fast'') = NaN" by (simp add: parse_none_def)
  show ?thesis using n bpm_clamped [of parse_none "JString ''fast''" 200] by blast
qed

subsection \<open>The playback controller\<close>

lemma stopAudio_fields:
  "activeCtx (stopAudio w) = None"
  "timers (stopAudio w) = timers w"
  "next_ctx (stopAudio w) = next_ctx w"
  "open_ctxs (stopAudio w) = open_ctxs w - set_option (activeCtx w)"
  by (simp_all add: stopAudio_def close_ctx_def split: option.split)

lemma stopAudio_idle: "activeCtx w = None \<Longrightarrow> stopAudio w = w"
  by (simp add: stopAudio_def)

lemma stopAudio_twice: "stopAudio (stopAudio w) = stopAudio w"
  by (rule stopAudio_idle) (rule stopAudio_fields)

lemma playJingle_world:
  "activeCtx (fst (playJingle ps rnd k w)) = Some (next_ctx w)"
  "open_ctxs (fst (playJingle ps rnd k w))
     = insert (next_ctx w) (open_ctxs w - set_option (activeCtx w))"
  "timers (fst (playJingle ps rnd k w))
     = timers w @ [(next_ctx w, total_duration ps * 1000 + 200)]"
  "next_ctx (fst (playJingle ps rnd k w)) = Suc (next_ctx w)"
  by (simp_all add: playJingle_def Let_def stopAudio_fields)

lemma playJingle_session:
  "session_ctx (snd (playJingle ps rnd k w)) = next_ctx w"
  "calls (snd (playJingle ps rnd k w))
     = arrange (bpm ps) (getStyleProfile (musicalStyle ps) (tone ps)) (total_duration ps) rnd k"
  "fade_from (snd (playJingle ps rnd k w)) = total_duration ps - 1.5"
  "fade_to (snd (playJingle ps rnd k w)) = total_duration ps"
  "resolve_after_ms (snd (playJingle ps rnd k w)) = total_duration ps * 1000 + 200"
  "dryGain (snd (playJingle ps rnd k w))
     = 1 - reverbAmount (getStyleProfile (musicalStyle ps) (tone ps))"
  "wetGain (snd (playJingle ps rnd k w))
     = reverbAmount (getStyleProfile (musicalStyle ps) (tone ps))"
  by (simp_all add: playJingle_def Let_def stopAudio_fields)

lemma timeout_fields:
  "timers (step w (Timeout c)) = filter (\<lambda>t. fst t \<noteq> c) (timers w)"
  "next_ctx (step w (Timeout c)) = next_ctx w"
  "activeCtx (step w (Timeout c))
     = (if c \<in> fst ` set (timers w) \<and> activeCtx w = Some c then None else activeCtx w)"
  "open_ctxs (step w (Timeout c))
     = (if c \<in> fst ` set (timers w) \<and> activeCtx w = Some c then open_ctxs w - {c}
        else open_ctxs w)"
proof -
  have "c \<notin> fst ` set (timers w) \<Longrightarrow> filter (\<lambda>t. fst t \<noteq> c) (timers w) = timers w"
    by (induction "timers w") (auto simp: filter_id_conv)
  then show "timers (step w (Timeout c)) = filter (\<lambda>t. fst t \<noteq> c) (timers w)"
    by (simp add: on_timeout_def close_ctx_def)
qed (simp_all add: on_timeout_def close_ctx_def)

lemma inv_init: "controller_inv init_world"
  by (simp add: controller_inv_def init_world_def)

lemma inv_step:
  assumes "controller_inv w"
  shows "controller_inv (step w e)"
proof (cases e)
  case (Play ps rnd k)
  have "next_ctx w \<notin> fst ` set (timers w)"
    using assms by (auto simp: controller_inv_def list_all_iff)
  moreover have "list_all (\<lambda>t. fst t < Suc (next_ctx w)) (timers w)"
    using assms by (auto simp: controller_inv_def list_all_iff)
  ultimately show ?thesis
    using assms Play by (simp add: controller_inv_def playJingle_world)
next
  case Stop
  then show ?thesis
    using assms by (simp add: controller_inv_def stopAudio_fields)
next
  case (Timeout c)
  have "distinct (map fst (filter (\<lambda>t. fst t \<noteq> c) (timers w)))"
    using assms by (simp add: controller_inv_def distinct_map_filter)
  moreover have "list_all (\<lambda>t. fst t < next_ctx w) (filter (\<lambda>t. fst t \<noteq> c) (timers w))"
    using assms by (auto simp: controller_inv_def list_all_iff)
  ultimately show ?thesis
    using assms unfolding Timeout controller_inv_def timeout_fields
    by (auto split: option.splits)
qed

lemma run_snoc: "run (es @ [e]) = step (run es) e"
  by (simp add: run_def)

lemma inv_run: "controller_inv (run es)"
proof (induction es rule: rev_induct)
  case Nil
  show ?case by (simp add: run_def inv_init)
next
  case (snoc e es)
  then show ?case by (simp add: run_snoc inv_step)
qed

lemma run_inv_fields:
  "open_ctxs (run es) = set_option (activeCtx (run es))"
  "next_ctx (run es) \<notin> open_ctxs (run es)"
  "next_ctx (run es) \<notin> fst ` set (timers (run es))"
  "card (open_ctxs (run es)) \<le> 1"
proof -
  note i = inv_run [of es, unfolded controller_inv_def]
  show o: "open_ctxs (run es) = set_option (activeCtx (run es))" using i by blast
  show "next_ctx (run es) \<notin> open_ctxs (run es)"
    using i by (cases "activeCtx (run es)") auto
  show "next_ctx (run es) \<notin> fst ` set (timers (run es))"
    using i by (auto simp: list_all_iff)
  show "card (open_ctxs (run es)) \<le> 1"
    unfolding o by (cases "activeCtx (run es)") simp_all
qed

lemma run_play:
  "open_ctxs (step (run es) (Play ps rnd k)) = {next_ctx (run es)}"
  "activeCtx (step (run es) (Play ps rnd k)) = Some (next_ctx (run es))"
  "timers (step (run es) (Play ps rnd k))
     = timers (run es) @ [(next_ctx (run es), total_duration ps * 1000 + 200)]"
  "next_ctx (step (run es) (Play ps rnd k)) = Suc (next_ctx (run es))"
  by (simp_all add: playJingle_world run_inv_fields(1))

lemma superseded_timeout:
  "activeCtx (step (step (step (run es) (Play ps rnd k)) (Play ps' rnd' k'))
               (Timeout (next_ctx (run es)))) = Some (Suc (next_ctx (run es)))"
  "open_ctxs (step (step (step (run es) (Play ps rnd k)) (Play ps' rnd' k'))
               (Timeout (next_ctx (run es)))) = {Suc (next_ctx (run es))}"
proof -
  let ?w1 = "step (run es) (Play ps rnd k)"
  have r1: "?w1 = run (es @ [Play ps rnd k])" by (simp add: run_snoc)
  have a: "activeCtx (step ?w1 (Play ps' rnd' k')) = Some (Suc (next_ctx (run es)))"
    "open_ctxs (step ?w1 (Play ps' rnd' k')) = {Suc (next_ctx (run es))}"
    using run_play(1,2) [of "es @ [Play ps rnd k]" ps' rnd' k'] run_play(4) [of es ps rnd k]
    by (simp_all add: run_snoc)
  show "activeCtx (step (step ?w1 (Play ps' rnd' k')) (Timeout (next_ctx (run es))))
      = Some (Suc (next_ctx (run es)))"
    unfolding timeout_fields a by simp
  show "open_ctxs (step (step ?w1 (Play ps' rnd' k')) (Timeout (next_ctx (run es))))
      = {Suc (next_ctx (run es))}"
    unfolding timeout_fields a by simp
qed

text \<open>
  Claim C2. In every history of the controller (calls of \<open>play\<close> and \<open>stop\<close> and timers
  firing, in any order) at most one audio context is open, and it is the one that
  \<open>activeCtx\<close> holds. \<open>play\<close> first closes the active context: after its \<open>stopAudio\<close> no
  context is open, after \<open>play\<close> the one open context is the new one, whose identity no
  open context and no pending timer has, and its timer is set to the total duration in
  milliseconds plus 200. The timer of a context closes it only when that context is still
  the active one; otherwise it changes neither the active context nor the open contexts.
  So when a second \<open>play\<close> has superseded a session, the timer of the first session leaves
  the second session open and active.
\<close>

theorem one_active_context:
  "card (open_ctxs (run es)) \<le> 1
   \<and> open_ctxs (run es) = set_option (activeCtx (run es))
   \<and> run (es @ [e]) = step (run es) e
   \<and> open_ctxs (stopAudio (run es)) = {}
   \<and> open_ctxs (step (run es) (Play ps rnd k)) = {next_ctx (run es)}
   \<and> activeCtx (step (run es) (Play ps rnd k)) = Some (next_ctx (run es))
   \<and> next_ctx (run es) \<notin> open_ctxs (run es)
   \<and> next_ctx (run es) \<notin> fst ` set (timers (run es))
   \<and> timers (step (run es) (Play ps rnd k))
       = timers (run es) @ [(next_ctx (run es), total_duration ps * 1000 + 200)]
   \<and> (c \<in> fst ` set (timers (run es)) \<and> activeCtx (run es) = Some c
        \<longrightarrow> activeCtx (step (run es) (Timeout c)) = None
          \<and> open_ctxs (step (run es) (Timeout c)) = {})
   \<and> (activeCtx (run es) \<noteq> Some c
        \<longrightarrow> activeCtx (step (run es) (Timeout c)) = activeCtx (run es)
          \<and> open_ctxs (step (run es) (Timeout c)) = open_ctxs (run es))
   \<and> activeCtx (step (step (step (run es) (Play ps rnd k)) (Play ps' rnd' k'))
                 (Timeout (next_ctx (run es)))) = Some (Suc (next_ctx (run es)))
   \<and> open_ctxs (step (step (step (run es) (Play ps rnd k)) (Play ps' rnd' k'))
                 (Timeout (next_ctx (run es)))) = {Suc (next_ctx (run es))}"
proof -
  have stop: "open_ctxs (stopAudio (run es)) = {}"
    by (simp add: stopAudio_fields run_inv_fields(1))
  have fire: "c \<in> fst ` set (timers (run es)) \<and> activeCtx (run es) = Some c
        \<longrightarrow> activeCtx (step (run es) (Timeout c)) = None
          \<and> open_ctxs (step (run es) (Timeout c)) = {}"
    unfolding timeout_fields by (simp add: run_inv_fields(1))
  have stale: "activeCtx (run es) \<noteq> Some c
        \<longrightarrow> activeCtx (step (run es) (Timeout c)) = activeCtx (run es)
          \<and> open_ctxs (step (run es) (Timeout c)) = open_ctxs (run es)"
    unfolding timeout_fields by simp
  show ?thesis
    using run_inv_fields [of es] run_snoc [of es e] stop run_play [of es ps rnd k] fire stale
      superseded_timeout [of es ps rnd k ps' rnd' k']
    by (intro conjI) blast+
qed

theorem one_active_context_witness:
  "fst ` set (timers (run [Play example_params (const_source 0) 0])) = {0}
   \<and> activeCtx (run [Play example_params (const_source 0) 0]) = Some 0
   \<and> activeCtx (step (run [Play example_params (const_source 0) 0]) (Timeout 0)) = None
   \<and> open_ctxs (step (run [Play example_params (const_source 0) 0]) (Timeout 0)) = {}
   \<and> activeCtx (run [Play example_params (const_source 0) 0]) \<noteq> Some 7
   \<and> open_ctxs (step (run [Play example_params (const_source 0) 0]) (Timeout 7)) = {0}
   \<and> timers (run [Play example_params (const_source 0) 0]) = [(0, 12200)]"
proof -
  let ?w = "run [Play example_params (const_source 0) 0]"
  have w: "?w = step (run []) (Play example_params (const_source 0) 0)"
    by (simp add: run_def)
  have i: "run [] = init_world" by (simp add: run_def)
  note t0 = one_active_context [of "[]" e example_params "const_source 0" 0 c ps' rnd' k']
  have a: "activeCtx ?w = Some 0" "open_ctxs ?w = {0}"
    using t0 unfolding w i by (simp_all add: init_world_def)
  have tm: "timers ?w = [(0, 12200)]"
    using t0 unfolding w i
    by (simp add: init_world_def total_duration_def example_params_def)
  have m: "(0::nat) \<in> fst ` set (timers ?w)" "fst ` set (timers ?w) = {0}"
    unfolding tm by simp_all
  note t1 = one_active_context
    [of "[Play example_params (const_source 0) 0]" e ps rnd k 0 ps' rnd' k']
  have fired: "activeCtx (step ?w (Timeout 0)) = None" "open_ctxs (step ?w (Timeout 0)) = {}"
    using t1 m(1) a(1) by blast+
  note t7 = one_active_context
    [of "[Play example_params (const_source 0) 0]" e ps rnd k 7 ps' rnd' k']
  have n7: "activeCtx ?w \<noteq> Some 7" using a(1) by simp
  have stale: "open_ctxs (step ?w (Timeout 7)) = {0}"
    using t7 n7 a(2) by simp
  show ?thesis using m(2) a(1) fired n7 stale tm by blast
qed

text \<open>
  Claim C6. \<open>stop\<close> is idempotent: stopping twice gives the same state as stopping once,
  in which no session is active. Without an active session \<open>stop\<close> changes nothing (on
  the initial state in particular); it never touches the timers. \<open>stopAudio\<close> is a total
  function of the state with no error result. In every history of the controller, after
  \<open>stop\<close> no context is active and none is open, and the context that \<open>stop\<close> closes is an
  open one.
\<close>

theorem stop_idempotent:
  "stopAudio (stopAudio w) = stopAudio w
   \<and> step (step w Stop) Stop = step w Stop
   \<and> activeCtx (stopAudio w) = None
   \<and> (activeCtx w = None \<longrightarrow> stopAudio w = w)
   \<and> stopAudio init_world = init_world
   \<and> timers (stopAudio w) = timers w
   \<and> next_ctx (stopAudio w) = next_ctx w
   \<and> activeCtx (stopAudio (run es)) = None
   \<and> open_ctxs (stopAudio (run es)) = {}
   \<and> (activeCtx (run es) = Some c \<longrightarrow> c \<in> open_ctxs (run es))"
proof -
  have idle: "activeCtx w = None \<longrightarrow> stopAudio w = w"
    using stopAudio_idle by blast
  have init: "stopAudio init_world = init_world"
    by (rule stopAudio_idle) (simp add: init_world_def)
  have closed: "open_ctxs (stopAudio (run es)) = {}"
    by (simp add: stopAudio_fields run_inv_fields(1))
  have opened: "activeCtx (run es) = Some c \<longrightarrow> c \<in> open_ctxs (run es)"
    by (simp add: run_inv_fields(1))
  have twice: "step (step w Stop) Stop = step w Stop"
    by (simp add: stopAudio_twice)
  show ?thesis
    using stopAudio_twice [of w] twice stopAudio_fields(1-3) [of w] idle init
      stopAudio_fields(1) [of "run es"] closed opened
    by (intro conjI) blast+
qed

theorem stop_idempotent_witness:
  "activeCtx init_world = None
   \<and> stopAudio init_world = init_world
   \<and> activeCtx (run [Play example_params (const_source 0) 0]) = Some 0
   \<and> 0 \<in> open_ctxs (run [Play example_params (const_source 0) 0])
   \<and> stopAudio (stopAudio (run [Play example_params (const_source 0) 0]))
       = stopAudio (run [Play example_params (const_source 0) 0])
   \<and> open_ctxs (stopAudio (run [Play example_params (const_source 0) 0])) = {}"
proof -
  let ?w = "run [Play example_params (const_source 0) 0]"
  have n: "activeCtx init_world = None" by (simp add: init_world_def)
  have a: "activeCtx ?w = Some 0"
    by (simp add: run_def playJingle_world init_world_def)
  show ?thesis
    using n a stop_idempotent [of init_world "[Play example_params (const_source 0) 0]" 0]
      stop_idempotent [of ?w "[Play example_params (const_source 0) 0]" 0]
    by blast
qed

subsection \<open>Degenerate and out-of-range tempo\<close>

lemma notes_of_append: "notes_of (a @ b) = notes_of a @ notes_of b"
  by (induction a rule: notes_of.induct) simp_all

lemma notes_of_drums: "notes_of (drums bd bars) = []"
proof -
  have "notes_of (drum_bar bd bar) = []" for bar
    by (simp add: drum_bar_def upt8)
  then have "notes_of (concat (map (drum_bar bd) xs)) = []" for xs
    by (induction xs) (simp_all add: notes_of_append)
  then show ?thesis by (simp add: drums_def)
qed

lemma no_bars:
  assumes "bars \<le> 0"
  shows "fst (melody p bd bars rnd k) = []" and "bass_line p bd bars = []"
    and "fst (pad p bd bars rnd k) = []" and "drums bd bars = []"
  using assms by (simp_all add: melody_def bass_line_def pad_def drums_def bar_range_def)

lemma arrange_no_bars: "bar_count T D \<le> 0 \<Longrightarrow> arrange T p D rnd k = []"
  by (simp add: arrange_parts no_bars)

lemma resolved_scale_positive: "\<forall>f \<in> set (scale (getStyleProfile style tn)). 0 < f"
proof -
  have "\<forall>f \<in> set (scale q). 0 < f" if "q \<in> set (default_profile # map snd keyword_groups)" for q
    using that
    by (auto simp: keyword_groups_def default_profile_def dark_profile_def NOTE_C4_def NOTE_D4_def
        NOTE_E4_def NOTE_F4_def NOTE_G4_def NOTE_A4_def NOTE_B4_def NOTE_C5_def)
  then show ?thesis
    using first_match_range unfolding getStyleProfile_refines resolve_spec_def by blast
qed

lemma bass_line_all:
  assumes "scale p \<noteq> []"
  shows "\<forall>e \<in> set (notes_of (bass_line p bd bars)).
           (\<exists>f \<in> set (scale p). freq e = f / 2) \<and> duration e = 0.85 * bd"
proof -
  have l: "length (bassScale p) = length (scale p)" by (simp add: bassScale_def)
  have one: "(\<exists>f \<in> set (scale p). freq e = f / 2) \<and> duration e = 0.85 * bd"
    if mem: "e \<in> set (notes_of (bass_bar p bd bar))" for e bar
  proof -
    obtain beat where b: "e = \<lparr>time = barStart bd bar + real beat * bd,
                     freq = bassScale p ! (pattern ! beat mod length (bassScale p)),
                     duration = bd * 0.85, wave = bassWave p, gain = 0.22, detune = None\<rparr>"
      using mem unfolding bass_bar_notes set_map by blast
    have m: "pattern ! beat mod length (scale p) < length (scale p)" using assms by simp
    have "freq e = scale p ! (pattern ! beat mod length (scale p)) / 2"
      using b bassScale_nth [OF m] by (simp add: l)
    moreover have "scale p ! (pattern ! beat mod length (scale p)) \<in> set (scale p)"
      using m by simp
    ultimately show ?thesis using b by auto
  qed
  have "\<forall>e \<in> set (notes_of (concat (map (bass_bar p bd) xs))).
           (\<exists>f \<in> set (scale p). freq e = f / 2) \<and> duration e = 0.85 * bd" for xs
    using one by (induction xs) (auto simp: notes_of_append)
  then show ?thesis by (simp add: bass_line_def)
qed

lemma arrange_notes_positive:
  assumes "0 < T" and "T < overflow64" and "random_source rnd"
  shows "\<forall>e \<in> set (notes_of (arrange T (getStyleProfile style tn) D rnd k)).
           0 < freq e \<and> 0 < duration e"
proof (cases "0 < beatDuration T")
  case False
  then have "bar_count T D = 0" using beat_read [OF assms(1,2), of D] by blast
  then show ?thesis by (simp add: arrange_no_bars)
next
  case bd: True
  show ?thesis
  proof
    fix e
    let ?p = "getStyleProfile style tn"
    let ?bd = "beatDuration T"
    let ?bars = "bar_count T D"
    assume e: "e \<in> set (notes_of (arrange T ?p D rnd k))"
    have sc: "scale ?p \<noteq> []" using resolved_scale [of style tn] by auto
    have pos: "\<forall>f \<in> set (scale ?p). 0 < f" by (rule resolved_scale_positive)
    have root: "0 < chordRoot ?p"
      using pos sc unfolding chordRoot_def by (cases "scale ?p") simp_all
    consider
      (mel) "e \<in> set (notes_of (fst (melody ?p ?bd ?bars rnd k)))"
    | (bass) "e \<in> set (notes_of (bass_line ?p ?bd ?bars))"
    | (pd) "e \<in> set (notes_of (fst (pad ?p ?bd ?bars rnd (snd (melody ?p ?bd ?bars rnd k)))))"
      using e unfolding arrange_parts by (auto simp: notes_of_append notes_of_drums)
    then show "0 < freq e \<and> 0 < duration e"
    proof cases
      case mel
      then have "freq e \<in> set (scale ?p) \<and> (duration e = 0.9 * ?bd \<or> duration e = 1.8 * ?bd)"
        using melody_pitches [OF assms(3) sc] by blast
      then show ?thesis using pos bd by auto
    next
      case bass
      then have "(\<exists>f \<in> set (scale ?p). freq e = f / 2) \<and> duration e = 0.85 * ?bd"
        using bass_line_all [OF sc] by blast
      then show ?thesis using pos bd by auto
    next
      case pd
      then have "duration e = 3.8 * ?bd
          \<and> freq e \<in> {chordRoot ?p, chordRoot ?p * 1.25, chordRoot ?p * 1.5}"
        using pad_all_notes [OF assms(3)] by blast
      then show ?thesis using root bd by auto
    qed
  qed
qed

lemma loops_zero:
  assumes "loop_count (bars_js T D) = Some 0"
  shows "bar_count T D \<le> 0"
proof -
  show "bar_count T D \<le> 0"
  proof (cases "bars_js T D")
    case (Num r)
    then have "r \<le> 0" using assms by (simp split: if_splits)
    then have "\<lfloor>r\<rfloor> \<le> 0" by (simp add: floor_le_iff)
    then show ?thesis using Num by (simp add: bar_count_def)
  qed (simp_all add: bar_count_def)
qed

lemma fade_refused: "refused (fade_times d) \<longleftrightarrow> d < 1.5"
  by (auto simp: refused_def fade_times_def)

lemma play_result_no_bars:
  assumes "bar_count (bpm ps) (total_duration ps) \<le> 0"
  shows "playJingle_result ps rnd k w =
           (if total_duration ps < 1.5 then Inl (RangeError, session_started w)
            else Inr (playJingle ps rnd k w))"
  using assms
  by (simp add: playJingle_result_def playJingle_session arrange_no_bars fade_refused)

lemma grid_240_2: "bar_count 240 2 = 2" "beatDuration 240 = 1 / 4" "bars_js 240 2 = Num 2"
proof -
  have y1: "fl64 (60 / 240) = Num (1 / 4)"
    by (subst fl64_pos [where e = "- 2"]) (simp_all add: round_even_def Let_def)
  have y2: "fl64 (1 / 4 * 4) = Num 1"
    by (subst fl64_pos [where e = 0]) (simp_all add: round_even_def Let_def)
  have q: "fl64 (2 / 1) = Num 2"
    by (subst fl64_pos [where e = 1]) (simp_all add: round_even_def Let_def)
  have n: "(240::real) \<noteq> 0" "(1::real) \<noteq> 0" by simp_all
  show "bar_count 240 2 = 2" using grid_eval(3) [OF n(1) y1 y2 n(2) q] by simp
  show "beatDuration 240 = 1 / 4" using grid_eval(1) [OF n(1) y1 y2 n(2) q] .
  show "bars_js 240 2 = Num 2" using grid_eval(2) [OF n(1) y1 y2 n(2) q] by simp
qed

text \<open>
  Claim C7, as amended. When the number of bars is zero or below, the arrangement is
  empty; then, if the total duration is at least 1.5 seconds (so that the fade does not
  start at a negative time), \<open>playJingle\<close> is not left by an exception and returns
  its session, with no call scheduled, the new context active, the fade from 1.5 seconds
  before the total duration to the total duration, and the timer at the total duration
  in milliseconds plus 200; with a shorter total duration the audio API refuses the fade
  and the exception leaves \<open>playJingle\<close> before the timer is set. Tempo 0 gives no bar for
  every duration, and so does tempo 10 with 12 seconds. For every positive tempo (a
  finite double) whose loops end, in range or not, neither divisor of the bar grid is
  zero and every note that \<open>playJingle\<close> schedules has a positive frequency and a positive
  duration. Tempo 200 with 12 seconds gives a positive beat length and 10 bars.
\<close>

theorem tempo_edge_cases:
  "(loop_count (bars_js (bpm ps) (total_duration ps)) = Some 0 \<and> 1.5 \<le> total_duration ps
      \<longrightarrow>
       playJingle_result ps rnd k w = Inr (playJingle ps rnd k w)
     \<and> calls (snd (playJingle ps rnd k w)) = []
     \<and> activeCtx (fst (playJingle ps rnd k w)) = Some (next_ctx w)
     \<and> session_ctx (snd (playJingle ps rnd k w)) = next_ctx w
     \<and> fade_from (snd (playJingle ps rnd k w)) = total_duration ps - 1.5
     \<and> 0 \<le> fade_from (snd (playJingle ps rnd k w))
     \<and> fade_to (snd (playJingle ps rnd k w)) = total_duration ps
     \<and> resolve_after_ms (snd (playJingle ps rnd k w)) = total_duration ps * 1000 + 200
     \<and> timers (fst (playJingle ps rnd k w))
         = timers w @ [(next_ctx w, total_duration ps * 1000 + 200)])
   \<and> (loop_count (bars_js (bpm ps) (total_duration ps)) = Some 0 \<and> total_duration ps < 1.5
        \<longrightarrow>
         playJingle_result ps rnd k w = Inl (RangeError, session_started w)
       \<and> timers (session_started w) = timers w)
   \<and> (loop_count (bars_js T D) = Some 0 \<longrightarrow> bar_count T D \<le> 0)
   \<and> bars_js 0 D = Num 0
   \<and> loop_count (bars_js 0 D) = Some 0
   \<and> loop_count (bars_js 10 12) = Some 0
   \<and> (0 < bpm ps \<and> bpm ps < overflow64 \<and> random_source rnd
        \<and> loop_count (bars_js (bpm ps) (total_duration ps)) \<noteq> None \<longrightarrow>
         bpm ps \<noteq> 0
       \<and> js_mul (beatDuration_js (bpm ps)) (Num 4) \<noteq> Num 0
       \<and> (\<forall>e \<in> set (notes_of (calls (snd (playJingle ps rnd k w)))).
             0 < freq e \<and> 0 < duration e))
   \<and> bar_count 200 12 = 10
   \<and> 0 < beatDuration 200"
proof -
  have empty: "loop_count (bars_js (bpm ps) (total_duration ps)) = Some 0
      \<and> 1.5 \<le> total_duration ps \<longrightarrow>
       playJingle_result ps rnd k w = Inr (playJingle ps rnd k w)
     \<and> calls (snd (playJingle ps rnd k w)) = []
     \<and> 0 \<le> fade_from (snd (playJingle ps rnd k w))"
    using loops_zero [of "bpm ps" "total_duration ps"]
    by (simp add: play_result_no_bars playJingle_session arrange_no_bars)
  have thrown: "loop_count (bars_js (bpm ps) (total_duration ps)) = Some 0
      \<and> total_duration ps < 1.5 \<longrightarrow>
         playJingle_result ps rnd k w = Inl (RangeError, session_started w)
       \<and> timers (session_started w) = timers w"
    using loops_zero [of "bpm ps" "total_duration ps"]
    by (simp add: play_result_no_bars session_started_def Let_def stopAudio_fields)
  have zero: "loop_count (bars_js T D) = Some 0 \<longrightarrow> bar_count T D \<le> 0"
    using loops_zero by blast
  have ex: "loop_count (bars_js 0 D) = Some 0" "loop_count (bars_js 10 12) = Some 0"
    by (simp_all add: bars_zero_tempo grid_10)
  have positive: "0 < bpm ps \<and> bpm ps < overflow64 \<and> random_source rnd
        \<and> loop_count (bars_js (bpm ps) (total_duration ps)) \<noteq> None \<longrightarrow>
         bpm ps \<noteq> 0
       \<and> js_mul (beatDuration_js (bpm ps)) (Num 4) \<noteq> Num 0
       \<and> (\<forall>e \<in> set (notes_of (calls (snd (playJingle ps rnd k w)))).
             0 < freq e \<and> 0 < duration e)"
  proof
    assume a: "0 < bpm ps \<and> bpm ps < overflow64 \<and> random_source rnd
        \<and> loop_count (bars_js (bpm ps) (total_duration ps)) \<noteq> None"
    have "js_mul (beatDuration_js (bpm ps)) (Num 4) \<noteq> Num 0"
      unfolding beatDuration_js_def using grid_240(3) a by blast
    moreover have "\<forall>e \<in> set (notes_of (calls (snd (playJingle ps rnd k w)))).
             0 < freq e \<and> 0 < duration e"
      unfolding playJingle_session using a arrange_notes_positive by blast
    ultimately show "bpm ps \<noteq> 0
       \<and> js_mul (beatDuration_js (bpm ps)) (Num 4) \<noteq> Num 0
       \<and> (\<forall>e \<in> set (notes_of (calls (snd (playJingle ps rnd k w)))).
             0 < freq e \<and> 0 < duration e)"
      using a by simp
  qed
  show ?thesis
    using empty thrown playJingle_world(1,3) [of ps rnd k w]
      playJingle_session(1,3,4,5) [of ps rnd k w]
      zero bars_zero_tempo(2) [of D] ex positive grid_200(1,3)
    by (intro conjI) blast+
qed

theorem tempo_edge_cases_witness:
  "loop_count (bars_js (bpm (example_params\<lparr>bpm := 0\<rparr>))
       (total_duration (example_params\<lparr>bpm := 0\<rparr>))) = Some 0
   \<and> 1.5 \<le> total_duration (example_params\<lparr>bpm := 0\<rparr>)
   \<and> playJingle_result (example_params\<lparr>bpm := 0\<rparr>) (const_source 0) 0 init_world
       = Inr (playJingle (example_params\<lparr>bpm := 0\<rparr>) (const_source 0) 0 init_world)
   \<and> calls (snd (playJingle (example_params\<lparr>bpm := 0\<rparr>) (const_source 0) 0 init_world)) = []
   \<and> fade_from (snd (playJingle (example_params\<lparr>bpm := 0\<rparr>) (const_source 0) 0 init_world))
       = 21 / 2
   \<and> 0 < bpm (example_params\<lparr>bpm := 240, durationSeconds := Some 2\<rparr>)
   \<and> bpm (example_params\<lparr>bpm := 240, durationSeconds := Some 2\<rparr>) < overflow64
   \<and> random_source (const_source 0)
   \<and> loop_count (bars_js (bpm (example_params\<lparr>bpm := 240, durationSeconds := Some 2\<rparr>))
         (total_duration (example_params\<lparr>bpm := 240, durationSeconds := Some 2\<rparr>))) \<noteq> None
   \<and> hd (notes_of (calls (snd (playJingle
           (example_params\<lparr>bpm := 240, durationSeconds := Some 2\<rparr>) (const_source 0) 0
           init_world))))
       = \<lparr>time = 0, freq = NOTE_C4, duration = 9 / 20, wave = sawtooth, gain = 9 / 50,
          detune = None\<rparr>
   \<and> 0 < freq (hd (notes_of (calls (snd (playJingle
           (example_params\<lparr>bpm := 240, durationSeconds := Some 2\<rparr>) (const_source 0) 0
           init_world)))))"
proof -
  let ?p0 = "example_params\<lparr>bpm := 0\<rparr>"
  let ?p1 = "example_params\<lparr>bpm := 240, durationSeconds := Some 2\<rparr>"
  let ?cs = "calls (snd (playJingle ?p1 (const_source 0) 0 init_world))"
  have z: "loop_count (bars_js (bpm ?p0) (total_duration ?p0)) = Some 0"
    by (simp add: bars_zero_tempo)
  have d: "1.5 \<le> total_duration ?p0"
    by (simp add: total_duration_def example_params_def)
  note t0 = tempo_edge_cases [of ?p0 "const_source 0" 0 init_world 10 12]
  have f: "fade_from (snd (playJingle ?p0 (const_source 0) 0 init_world)) = 21 / 2"
    using t0 z d by (simp add: total_duration_def example_params_def)
  have b: "0 < bpm ?p1" "bpm ?p1 < overflow64" by (simp_all add: overflow64_def)
  have src: "random_source (const_source 0)" by (simp add: const_source_ok)
  note t1 = tempo_edge_cases [of ?p1 "const_source 0" 0 init_world 10 12]
  have fin: "loop_count (bars_js (bpm ?p1) (total_duration ?p1)) \<noteq> None"
    by (simp add: total_duration_def grid_240_2)
  have prof: "getStyleProfile (musicalStyle example_params) (tone example_params) = dark_profile"
    by (simp add: example_params_def scenario_A)
  have mel: "fst (melody dark_profile (1 / 4) 2 (const_source 0) 0)
      = ScheduleNote \<lparr>time = 0, freq = NOTE_C4, duration = 9 / 20, wave = sawtooth,
                       gain = 9 / 50, detune = None\<rparr>
        # tl (fst (melody dark_profile (1 / 4) 2 (const_source 0) 0))"
    by (simp add: melody_def melody_bar_def melody_beat_def const_source_def
        dark_profile_def noteIdx_def barStart_def bar_range_def upt_rec)
  have cs: "?cs = arrange 240 dark_profile 2 (const_source 0) 0"
    by (simp add: playJingle_session prof total_duration_def)
  have h: "hd (notes_of ?cs)
      = \<lparr>time = 0, freq = NOTE_C4, duration = 9 / 20, wave = sawtooth, gain = 9 / 50,
         detune = None\<rparr>"
    unfolding cs arrange_parts grid_240_2 by (subst mel) simp
  have ne: "notes_of ?cs \<noteq> []"
    unfolding cs arrange_parts grid_240_2 by (subst mel) simp
  have "hd (notes_of ?cs) \<in> set (notes_of ?cs)" using ne by simp
  then have pos: "0 < freq (hd (notes_of ?cs))" using t1 b src fin by blast
  show ?thesis using z d t0 f b src fin h pos by blast
qed

theorem short_fade_counterexample:
  "bars_js (bpm (example_params\<lparr>durationSeconds := Some 1\<rparr>))
       (total_duration (example_params\<lparr>durationSeconds := Some 1\<rparr>)) = Num 0
   \<and> bar_count (bpm (example_params\<lparr>durationSeconds := Some 1\<rparr>))
       (total_duration (example_params\<lparr>durationSeconds := Some 1\<rparr>)) = 0
   \<and> calls (snd (playJingle (example_params\<lparr>durationSeconds := Some 1\<rparr>) (const_source 0) 0
              init_world)) = []
   \<and> fade_times (total_duration (example_params\<lparr>durationSeconds := Some 1\<rparr>))
       = [- 1 / 2, 1, - 1 / 2, 1]
   \<and> playJingle_result (example_params\<lparr>durationSeconds := Some 1\<rparr>) (const_source 0) 0
         init_world
       = Inl (RangeError, session_started init_world)
   \<and> timers (session_started init_world) = []"
proof -
  let ?ps = "example_params\<lparr>durationSeconds := Some 1\<rparr>"
  have d: "total_duration ?ps = 1" "bpm ?ps = 120"
    by (simp_all add: total_duration_def example_params_def)
  have z: "bar_count (bpm ?ps) (total_duration ?ps) = 0" unfolding d by (rule grid_120)
  have zj: "bars_js (bpm ?ps) (total_duration ?ps) = Num 0" unfolding d by (rule grid_120)
  have c: "calls (snd (playJingle ?ps (const_source 0) 0 init_world)) = []"
    using z by (simp add: playJingle_session arrange_no_bars)
  have r: "playJingle_result ?ps (const_source 0) 0 init_world
       = Inl (RangeError, session_started init_world)"
    using z play_result_no_bars [of ?ps "const_source 0" 0 init_world] d(1) by simp
  have t: "timers (session_started init_world) = []"
    by (simp add: session_started_def Let_def stopAudio_fields init_world_def)
  have ft: "fade_times (total_duration ?ps) = [- 1 / 2, 1, - 1 / 2, 1]"
    unfolding d by (simp add: fade_times_def)
  show ?thesis using zj z c ft r t by blast
qed

end
